theory Spec2Isabelle
  imports Main
begin

section \<open>Data model of the CCTP bridge hook (src/src/hooks/useBridgeCCTP.ts)\<close>

text \<open>
  The hook drives a USDC transfer between Ethereum Sepolia and Arc Testnet through
  burn, attestation and mint. Its durable state is one localStorage item holding a
  JSON object from lower-cased wallet addresses to \<open>PendingBurn\<close> records.
\<close>

datatype BridgeNetwork = ethereumSepolia | arcTestnet

text \<open>
  \<open>interface PendingBurn\<close>. The interface declares \<open>txHash: string\<close>; at run time the
  network-error branch of the outer catch of \<open>bridge\<close> stores \<open>burnTxHashRef.current\<close>,
  which is \<open>string | null\<close>, so the field is an option here.
\<close>

record PendingBurn =
  txHash :: "string option"
  fromNetwork :: BridgeNetwork
  toNetwork :: BridgeNetwork
  amount :: string
  timestamp :: nat

subsection \<open>JavaScript string helpers\<close>

text \<open>\<open>String.prototype.toLowerCase\<close> on the ASCII letters (addresses are hex strings).\<close>

definition lower_char :: "char \<Rightarrow> char" where
  "lower_char c =
     (let n = (of_char c :: nat) in if 65 \<le> n \<and> n \<le> 90 then char_of (n + 32) else c)"

definition toLowerCase :: "string \<Rightarrow> string" where
  "toLowerCase s = map lower_char s"

text \<open>\<open>String.prototype.startsWith\<close> and \<open>String.prototype.includes\<close> (\<open>includes\<close> is a keyword of Isabelle).\<close>

fun startsWith :: "string \<Rightarrow> string \<Rightarrow> bool" where
  "startsWith s [] = True"
| "startsWith [] (p # ps) = False"
| "startsWith (c # cs) (p # ps) = (c = p \<and> startsWith cs ps)"

fun str_includes :: "string \<Rightarrow> string \<Rightarrow> bool" where
  "str_includes [] sub = (sub = [])"
| "str_includes (c # cs) sub = (startsWith (c # cs) sub \<or> str_includes cs sub)"

text \<open>Truthiness of an optional string: \<open>undefined\<close>, \<open>null\<close> and \<open>''\<close> are falsy.\<close>

fun truthy :: "string option \<Rightarrow> bool" where
  "truthy None = False"
| "truthy (Some s) = (s \<noteq> [])"

subsection \<open>The record store: savePendingBurn and loadPendingBurn\<close>

text \<open>
  The value of \<open>localStorage.getItem(PENDING_BURN_STORAGE_KEY)\<close>: \<open>None\<close> when the item
  is absent, otherwise the parsed JSON object as an association list in key order.
  The model takes localStorage to be available and the item to be well-formed, so the
  \<open>try/catch\<close> around both helpers never fires.
\<close>

type_synonym localStorage = "(string \<times> PendingBurn) list option"

text \<open>\<open>delete data[key]\<close>\<close>

definition delete_key :: "string \<Rightarrow> (string \<times> PendingBurn) list \<Rightarrow> (string \<times> PendingBurn) list" where
  "delete_key k data = filter (\<lambda>kv. fst kv \<noteq> k) data"

definition savePendingBurn :: "string \<Rightarrow> PendingBurn option \<Rightarrow> localStorage \<Rightarrow> localStorage" where
  "savePendingBurn address pendingBurn ls =
     (case pendingBurn of
        Some pb \<Rightarrow> Some [(toLowerCase address, pb)]
      | None \<Rightarrow>
          (case ls of
             None \<Rightarrow> None
           | Some stored \<Rightarrow>
               (let data = delete_key (toLowerCase address) stored
                in if length data = 0 then None else Some data)))"

definition loadPendingBurn :: "string \<Rightarrow> localStorage \<Rightarrow> PendingBurn option" where
  "loadPendingBurn address ls =
     (case ls of
        None \<Rightarrow> None
      | Some data \<Rightarrow> map_of data (toLowerCase address))"

subsection \<open>Relayer fee of the direct Sepolia-to-Arc burn\<close>

text \<open>
  \<open>bigint\<close> division truncates towards zero; \<open>amountWei\<close> is the result of
  \<open>parseUnits(amount, 6)\<close>.
\<close>

definition bigint_div :: "int \<Rightarrow> int \<Rightarrow> int" where
  "bigint_div a b = sgn a * sgn b * (\<bar>a\<bar> div \<bar>b\<bar>)"

definition feeBps :: int where "feeBps = 1"
definition MIN_FEE :: int where "MIN_FEE = 1000"

definition maxFee :: "int \<Rightarrow> int" where
  "maxFee amountWei =
     (let calculatedFee = bigint_div (amountWei * feeBps) 10000
      in if calculatedFee > MIN_FEE then calculatedFee else MIN_FEE)"

subsection \<open>Decimal rendering of numbers in template strings\<close>

definition digit_char :: "nat \<Rightarrow> char" where
  "digit_char d = char_of (48 + d)"

function string_of_nat :: "nat \<Rightarrow> string" where
  "string_of_nat n =
     (if n < 10 then [digit_char n] else string_of_nat (n div 10) @ [digit_char (n mod 10)])"
  by pat_completeness auto
termination
  by (relation "measure id") auto

declare string_of_nat.simps [simp del]

section \<open>Hook state, effects and the outside world\<close>

text \<open>\<open>attestationStatus\<close>: \<open>'pending' | 'pending_mint' | 'attested' | 'complete' | null\<close>.\<close>

datatype att_status = st_pending | st_pending_mint | st_attested | st_complete

text \<open>
  \<open>interface BridgeState\<close>, restricted to the fields that the modelled operations read
  or that the claims speak about. The fields \<open>isEstimating\<close>, \<open>result\<close>,
  \<open>transactions\<close>, \<open>estimate\<close>, \<open>steps\<close> and \<open>lastResult\<close> are written but never read
  by \<open>bridge\<close>, \<open>claimPendingBridge\<close>, \<open>restorePendingBurn\<close>, \<open>clearPendingBurn\<close> or the
  wallet-connect effect, and are left out.
\<close>

record BridgeState =
  isBridging :: bool
  isClaiming :: bool
  error :: "string option"
  mintConfirmed :: bool
  pendingBurn :: "PendingBurn option"

text \<open>
  A thrown JavaScript value, as far as the handlers look at it: \<open>e.message\<close> and
  \<open>e.toString()\<close>. \<open>Error s\<close> is \<open>new Error(s)\<close>.
\<close>

record js_error =
  err_message :: "string option"
  err_toString :: string

definition Error :: "string \<Rightarrow> js_error" where
  "Error s = \<lparr>err_message = Some s, err_toString = ''Error: '' @ s\<rparr>"

text \<open>
  One element of \<open>data.messages\<close> of the attestation service: \<open>attestation\<close>,
  \<open>message\<close> and \<open>decodedMessage?.decodedMessageBody?.amount\<close>.
\<close>

record att_message =
  msg_attestation :: "string option"
  msg_message :: "string option"
  msg_amount :: "string option"

text \<open>
  \<open>await fetch(url)\<close> followed by \<open>await response.json()\<close>: the fetch may throw; the
  response carries \<open>response.ok\<close>; parsing may throw; the parsed body has
  \<open>data.messages\<close> (\<open>None\<close> when the property is missing).
\<close>

datatype json_body = JsonThrows | Json "att_message list option"

datatype fetch_result = FetchThrows | Response bool json_body

text \<open>\<open>data.messages && data.messages.length > 0\<close>, then \<open>data.messages[0]\<close>.\<close>

fun first_message :: "att_message list option \<Rightarrow> att_message option" where
  "first_message None = None"
| "first_message (Some []) = None"
| "first_message (Some (m # ms)) = Some m"

text \<open>\<open>x.attestation && x.attestation !== 'PENDING'\<close>\<close>

definition usable :: "string option \<Rightarrow> bool" where
  "usable a = (truthy a \<and> a \<noteq> Some ''PENDING'')"

text \<open>Progress events and result of \<open>bridgeKit.bridge\<close> (the Bridge Kit SDK).\<close>

record progress =
  eventType :: "string option"  \<comment> \<open>\<open>progress.type || progress.event || progress.status || progress.stage\<close>\<close>
  p_txHash :: "string option"   \<comment> \<open>\<open>progress.txHash || progress.transactionHash\<close>\<close>

record sdk_step =
  s_name :: "string option"
  s_type :: "string option"
  s_state :: "string option"
  s_txHash :: "string option"   \<comment> \<open>\<open>s.txHash || s.transactionHash\<close>\<close>

record sdk_result =
  r_state :: "string option"
  r_steps :: "sdk_step list"    \<comment> \<open>\<open>result?.steps || []\<close>\<close>
  r_txHash :: "string option"   \<comment> \<open>\<open>result?.txHash || result?.transactionHash\<close>\<close>

text \<open>Interactions with wallets, chains and services, in the order they happen.\<close>

datatype ext =
    SwitchChain nat
  | CreateAdapter
  | ReadAllowance
  | ApproveTx int
  | ApproveReceipt string
  | BurnTx int int
  | BurnSubmitted string
  | BurnReceipt string bool
  | TrackSiteBridge "string option"
  | Fetch nat string
  | EthChainId
  | MintTx BridgeNetwork string string
  | MintSubmitted string
  | MintReceipt string bool
  | SdkBridge BridgeNetwork BridgeNetwork string
  | AutoClaim

datatype toast_kind = info | success | warning | toast_error | loading | dismiss

text \<open>
  What an operation does, step by step: a write to the record store
  (\<open>savePendingBurn\<close>), \<open>setAttestationStatus\<close>, \<open>setState\<close>, a toast, or an
  interaction with the outside. An operation is the list of its effects in program
  order; an interrupted run (closed tab, crash) is a prefix of that list.
\<close>

datatype effect =
    Persist string "PendingBurn option"
  | SetAttestationStatus "att_status option"
  | SetState "BridgeState \<Rightarrow> BridgeState"
  | Toast toast_kind string
  | Ext ext

record world =
  storage :: localStorage
  ui :: BridgeState
  attestationStatus :: "att_status option"
  toasts :: "(toast_kind \<times> string) list"
  interactions :: "ext list"

fun apply_effect :: "effect \<Rightarrow> world \<Rightarrow> world" where
  "apply_effect (Persist a pb) w = w\<lparr>storage := savePendingBurn a pb (storage w)\<rparr>"
| "apply_effect (SetAttestationStatus s) w = w\<lparr>attestationStatus := s\<rparr>"
| "apply_effect (SetState f) w = w\<lparr>ui := f (ui w)\<rparr>"
| "apply_effect (Toast k t) w = w\<lparr>toasts := toasts w @ [(k, t)]\<rparr>"
| "apply_effect (Ext x) w = w\<lparr>interactions := interactions w @ [x]\<rparr>"

definition run :: "effect list \<Rightarrow> world \<Rightarrow> world" where
  "run effs w = fold apply_effect effs w"

text \<open>
  The environment of one call: the wagmi hooks' values, the constants of
  \<open>@/lib/constants\<close> (not part of the sources at hand, taken as parameters), and the
  outcome of every outside call. A thrown error is \<open>Inl\<close> (or \<open>Some\<close> for calls without
  a result).
\<close>

record env =
  isConnected :: bool
  account_address :: "string option"
  account_chainId :: "nat option"
  connectorClient :: bool
  walletClient :: bool
  provider :: bool                                  \<comment> \<open>\<open>connectorClient?.transport || window.ethereum\<close>\<close>
  publicClient :: "BridgeNetwork \<Rightarrow> bool"           \<comment> \<open>\<open>sepoliaClient\<close>, \<open>arcClient\<close>\<close>
  chainId_of :: "BridgeNetwork \<Rightarrow> nat"              \<comment> \<open>\<open>SUPPORTED_NETWORKS[n].chainId\<close>\<close>
  name_of :: "BridgeNetwork \<Rightarrow> string"             \<comment> \<open>\<open>SUPPORTED_NETWORKS[n].name\<close>\<close>
  domain_of :: "BridgeNetwork \<Rightarrow> nat"               \<comment> \<open>\<open>CCTP_DOMAINS[n]\<close>\<close>
  now :: nat                                        \<comment> \<open>\<open>Date.now()\<close>\<close>
  parseFloat_le_0 :: "string \<Rightarrow> bool"             \<comment> \<open>\<open>parseFloat(amount) <= 0\<close>\<close>
  parseUnits :: "string \<Rightarrow> js_error + int"         \<comment> \<open>\<open>parseUnits(amount, 6)\<close>\<close>
  amount_of_units :: "string \<Rightarrow> string"            \<comment> \<open>\<open>(parseFloat(x) / 1e6).toString()\<close>\<close>
  amount_of_units_fixed :: "string \<Rightarrow> string"      \<comment> \<open>\<open>(parseFloat(x) / 1e6).toFixed(2)\<close>\<close>
  switchChainAsync :: "nat \<Rightarrow> js_error option"
  createAdapterFromProvider :: "js_error option"
  readAllowance :: "js_error + int"
  approve :: "int \<Rightarrow> js_error + string"
  waitApprove :: "string \<Rightarrow> js_error option"
  sendBurn :: "int \<Rightarrow> int \<Rightarrow> js_error + string"
  waitBurn :: "string \<Rightarrow> js_error + bool"          \<comment> \<open>\<open>receipt.status === 'success'\<close>\<close>
  fetchAttestation :: "nat \<Rightarrow> string \<Rightarrow> nat \<Rightarrow> fetch_result"
  eth_chainId :: "nat \<Rightarrow> js_error + nat"
  receiveMessage :: "BridgeNetwork \<Rightarrow> string \<Rightarrow> string \<Rightarrow> js_error + string"
  waitMint :: "BridgeNetwork \<Rightarrow> string \<Rightarrow> js_error + bool"
  sdk_progress :: "progress list"
  sdk_outcome :: "js_error + sdk_result"

text \<open>
  \<open>fetchAttestation env d h i\<close> is the answer of the attestation service for domain
  \<open>d\<close> and transaction hash \<open>h\<close>; \<open>i\<close> is the attempt number inside the polling loop of
  \<open>bridge\<close> (1 to 150) and 0 for the single requests of the other operations.
  \<open>eth_chainId env i\<close> is the answer to the \<open>i\<close>-th \<open>eth_chainId\<close> request of an
  operation, counted from 0. \<open>useSwitchChain\<close> always provides \<open>switchChainAsync\<close>.
  \<open>account_chainId\<close> is the value of \<open>account.chainId\<close> that the callback closed over, so it
  stays the same during one call, also after a switch. \<open>now\<close> stands for every
  \<open>Date.now()\<close> of one call: only \<open>timestamp\<close> fields depend on it.
\<close>

section \<open>The transfer operation: bridge\<close>

text \<open>\<open>interface BridgeParams\<close>\<close>

record BridgeParams =
  p_fromNetwork :: BridgeNetwork
  p_toNetwork :: BridgeNetwork
  p_amount :: string

text \<open>The \<open>useRef\<close> cells; \<open>bridge\<close> resets them when it starts.\<close>

record refs =
  mintConfirmedRef :: bool
  mintTxHashRef :: "string option"
  burnConfirmedRef :: bool
  burnTxHashRef :: "string option"
  approvalConfirmedRef :: bool
  approvalStartedRef :: bool
  approvalTxHashRef :: "string option"

definition refs0 :: refs where
  "refs0 = \<lparr>mintConfirmedRef = False, mintTxHashRef = None, burnConfirmedRef = False,
            burnTxHashRef = None, approvalConfirmedRef = False, approvalStartedRef = False,
            approvalTxHashRef = None\<rparr>"

text \<open>\<open>{ txHash, fromNetwork, toNetwork, amount, timestamp: Date.now() }\<close>\<close>

definition newPendingBurn :: "env \<Rightarrow> BridgeParams \<Rightarrow> string option \<Rightarrow> PendingBurn" where
  "newPendingBurn env p h =
     \<lparr>txHash = h, fromNetwork = p_fromNetwork p, toNetwork = p_toNetwork p,
      amount = p_amount p, timestamp = now env\<rparr>"

text \<open>The network-error test, written twice in \<open>bridge\<close> with the same disjuncts.\<close>

definition isNetworkError :: "string \<Rightarrow> bool" where
  "isNetworkError errorMsg =
     (str_includes errorMsg ''chain'' \<or> str_includes errorMsg ''network'' \<or>
      str_includes errorMsg ''Chain ID'' \<or> str_includes errorMsg ''not switched'' \<or>
      str_includes errorMsg ''does not match'' \<or>
      (str_includes errorMsg ''current'' \<and> str_includes errorMsg ''expected''))"

text \<open>\<open>error?.message || 'An unexpected error occurred'\<close>, then the common rewordings.\<close>

definition outer_errorMsg :: "js_error \<Rightarrow> string" where
  "outer_errorMsg e =
     (let errorMsg = (case err_message e of
                        None \<Rightarrow> ''An unexpected error occurred''
                      | Some m \<Rightarrow> if m = [] then ''An unexpected error occurred'' else m)
      in if str_includes errorMsg ''User rejected'' \<or> str_includes errorMsg ''user rejected'' \<or>
            str_includes errorMsg ''User denied''
         then ''Transaction rejected by user''
         else if str_includes errorMsg ''insufficient funds'' then ''Insufficient funds for gas''
         else if str_includes errorMsg ''allowance'' then ''Token approval failed''
         else errorMsg)"

text \<open>The \<open>catch (error)\<close> block of the outer \<open>try\<close> of \<open>bridge\<close>.\<close>

definition bridge_catch :: "env \<Rightarrow> BridgeParams \<Rightarrow> string \<Rightarrow> refs \<Rightarrow> js_error \<Rightarrow> effect list" where
  "bridge_catch env p address r e =
     (let errorMsg = outer_errorMsg e
      in if isNetworkError errorMsg \<and> burnConfirmedRef r then
           [Toast toast_error ''Network switch required'',
            SetState (\<lambda>prev. prev\<lparr>isBridging := False,
                                   pendingBurn := Some (newPendingBurn env p (burnTxHashRef r))\<rparr>)]
         else if burnConfirmedRef r \<and> truthy (burnTxHashRef r) then
           (if mintConfirmedRef r then []
            else
              [SetAttestationStatus (Some st_pending_mint),
               Toast warning ''Your funds are safe!''] @
              (if address \<noteq> [] then [Persist address (Some (newPendingBurn env p (burnTxHashRef r)))]
               else []) @
              [SetState (\<lambda>prev. prev\<lparr>isBridging := False,
                  error := Some ''Mint was not completed. Your funds are safe - click Claim USDC.'',
                  mintConfirmed := False,
                  pendingBurn := Some (newPendingBurn env p (burnTxHashRef r))\<rparr>)])
         else
           [SetAttestationStatus None,
            SetState (\<lambda>prev. prev\<lparr>isBridging := False, error := Some errorMsg,
                                   mintConfirmed := False\<rparr>),
            Toast toast_error ''Bridge cancelled''])"

subsection \<open>Direct Sepolia-to-Arc path: mint\<close>

text \<open>
  The \<open>catch (mintError)\<close> block around the mint step. \<open>mintTx\<close> is
  \<open>mintTxHashRef.current\<close> at the time of the throw.
\<close>

definition mint_errorMsg :: "js_error \<Rightarrow> string" where
  "mint_errorMsg e = (if truthy (err_message e) then (case err_message e of Some m \<Rightarrow> m | None \<Rightarrow> [])
                      else err_toString e)"

definition message_includes :: "js_error \<Rightarrow> string \<Rightarrow> bool" where
  "message_includes e sub = (case err_message e of None \<Rightarrow> False | Some m \<Rightarrow> str_includes m sub)"

definition direct_mint_catch ::
  "env \<Rightarrow> BridgeParams \<Rightarrow> string \<Rightarrow> string \<Rightarrow> string option \<Rightarrow> js_error \<Rightarrow> effect list" where
  "direct_mint_catch env p address burnHash mintTx e =
     (if isNetworkError (mint_errorMsg e) then
        [Toast toast_error ''Network switch required'',
         SetState (\<lambda>prev. prev\<lparr>isBridging := False,
                                pendingBurn := Some (newPendingBurn env p (Some burnHash))\<rparr>)]
      else if message_includes e ''Nonce already used'' \<or> message_includes e ''already'' then
        [SetAttestationStatus (Some st_complete),
         Persist address None,
         Toast success ''Bridge completed!'',
         SetState (\<lambda>prev. prev\<lparr>isBridging := False, mintConfirmed := True, pendingBurn := None\<rparr>)]
      else if truthy mintTx then
        [Toast info ''Mint transaction sent!'',
         SetState (\<lambda>prev. prev\<lparr>isBridging := False,
                                pendingBurn := Some (newPendingBurn env p (Some burnHash))\<rparr>)]
      else
        [Toast toast_error ''Mint failed'',
         SetState (\<lambda>prev. prev\<lparr>isBridging := False,
                                pendingBurn := Some (newPendingBurn env p (Some burnHash))\<rparr>)])"

text \<open>
  \<open>while (attempts < 10) { sleep; read eth_chainId; if it is the target, break;
  attempts++ }\<close>. The result is the final value of \<open>attempts\<close>, or the error thrown by
  the request.
\<close>

function verify_switch :: "env \<Rightarrow> nat \<Rightarrow> nat \<Rightarrow> effect list \<times> (js_error + nat)" where
  "verify_switch env target attempts =
     (if attempts < 10 then
        (case eth_chainId env attempts of
           Inl e \<Rightarrow> ([Ext EthChainId], Inl e)
         | Inr currentChainId \<Rightarrow>
             if currentChainId = target then ([Ext EthChainId], Inr attempts)
             else (case verify_switch env target (attempts + 1) of
                     (effs, res) \<Rightarrow> (Ext EthChainId # effs, res)))
      else ([], Inr attempts))"
  by pat_completeness auto
termination
  by (relation "measure (\<lambda>(env, target, attempts). 10 - attempts)") auto

declare verify_switch.simps [simp del]

text \<open>
  From "Get fresh provider after network switch" to the end of the inner \<open>try\<close>;
  \<open>req\<close> is the number of \<open>eth_chainId\<close> requests made so far.
\<close>

definition direct_mint_submit ::
  "env \<Rightarrow> BridgeParams \<Rightarrow> string \<Rightarrow> string \<Rightarrow> string \<Rightarrow> string \<Rightarrow> nat \<Rightarrow> effect list" where
  "direct_mint_submit env p address burnHash messageBytes attestationBytes req =
     (let targetChainId = chainId_of env arcTestnet
      in if \<not> provider env then
           direct_mint_catch env p address burnHash None
             (Error ''No wallet provider available after network switch'')
         else
           Ext EthChainId #
           (case eth_chainId env req of
              Inl e \<Rightarrow> direct_mint_catch env p address burnHash None e
            | Inr currentChainId \<Rightarrow>
                if currentChainId \<noteq> targetChainId then
                  direct_mint_catch env p address burnHash None
                    (Error (''Network not switched: current '' @ string_of_nat currentChainId @
                            '', expected '' @ string_of_nat targetChainId))
                else
                  Ext (MintTx arcTestnet messageBytes attestationBytes) #
                  (case receiveMessage env arcTestnet messageBytes attestationBytes of
                     Inl e \<Rightarrow> direct_mint_catch env p address burnHash None e
                   | Inr mintHash \<Rightarrow>
                       Ext (MintSubmitted mintHash) #
                       (case waitMint env arcTestnet mintHash of
                          Inl e \<Rightarrow> direct_mint_catch env p address burnHash (Some mintHash) e
                        | Inr ok \<Rightarrow>
                            Ext (MintReceipt mintHash ok) #
                            (if ok then
                               [Ext (TrackSiteBridge (Some burnHash)),
                                SetAttestationStatus (Some st_complete),
                                Persist address None,
                                Toast success ''Bridge completed!'',
                                SetState (\<lambda>prev. prev\<lparr>isBridging := False, mintConfirmed := True,
                                                       pendingBurn := None\<rparr>)]
                             else
                               direct_mint_catch env p address burnHash (Some mintHash)
                                 (Error ''Mint transaction failed''))))))"

text \<open>The inner \<open>try\<close>: switch to Arc Testnet, verify the switch, then mint.\<close>

definition direct_mint ::
  "env \<Rightarrow> BridgeParams \<Rightarrow> string \<Rightarrow> string \<Rightarrow> string \<Rightarrow> string \<Rightarrow> effect list" where
  "direct_mint env p address burnHash messageBytes attestationBytes =
     (let targetChainId = chainId_of env arcTestnet
      in if account_chainId env \<noteq> Some targetChainId then
           Ext (SwitchChain targetChainId) #
           (case switchChainAsync env targetChainId of
              Some e \<Rightarrow> direct_mint_catch env p address burnHash None e
            | None \<Rightarrow>
                if \<not> provider env then
                  direct_mint_catch env p address burnHash None
                    (Error ''No wallet provider available'')
                else
                  (case verify_switch env targetChainId 0 of
                     (effs, Inl e) \<Rightarrow> effs @ direct_mint_catch env p address burnHash None e
                   | (effs, Inr attempts) \<Rightarrow>
                       effs @
                       (if attempts \<ge> 10 then
                          direct_mint_catch env p address burnHash None
                            (Error ''Network switch timeout - please switch to Arc Testnet manually'')
                        else
                          direct_mint_submit env p address burnHash messageBytes attestationBytes
                            (attempts + 1))))
         else direct_mint_submit env p address burnHash messageBytes attestationBytes 0)"

subsection \<open>Direct Sepolia-to-Arc path: attestation polling\<close>

definition MAX_ATTEMPTS :: nat where "MAX_ATTEMPTS = 150"

text \<open>
  \<open>updateToast(seconds)\<close>; the identifier returned by \<open>toast.loading\<close> is taken to be
  truthy, so every later \<open>if (toastId)\<close> holds.
\<close>

definition updateToast :: "nat \<Rightarrow> effect" where
  "updateToast seconds = Toast loading (''Waiting for attestation... ('' @ string_of_nat seconds @ ''s)'')"

text \<open>
  One pass of the body of the polling loop after the sleep: \<open>None\<close> stands for
  \<open>continue\<close> (or falling through to the next iteration), \<open>Some (m, a)\<close> for the
  \<open>break\<close> with \<open>messageBytes = m\<close> and \<open>attestationBytes = a\<close>.
\<close>

definition poll_once :: "env \<Rightarrow> string \<Rightarrow> nat \<Rightarrow> (string option \<times> string option) option" where
  "poll_once env burnHash attempts =
     (case fetchAttestation env 0 burnHash attempts of
        FetchThrows \<Rightarrow> None
      | Response ok body \<Rightarrow>
          if \<not> ok then None
          else (case body of
                  JsonThrows \<Rightarrow> None
                | Json messages \<Rightarrow>
                    (case first_message messages of
                       None \<Rightarrow> None
                     | Some m \<Rightarrow>
                         if usable (msg_attestation m)
                         then Some (msg_message m, msg_attestation m)
                         else None)))"

text \<open>
  \<open>while (attempts < MAX_ATTEMPTS) { ... }\<close>, started with \<open>attempts = 0\<close>. The result
  is the effects of the loop and the final \<open>messageBytes\<close> and \<open>attestationBytes\<close>.
\<close>

function poll_attestation ::
  "env \<Rightarrow> string \<Rightarrow> nat \<Rightarrow> effect list \<times> string option \<times> string option" where
  "poll_attestation env burnHash attempts =
     (if attempts < MAX_ATTEMPTS then
        (case poll_once env burnHash (attempts + 1) of
           Some (m, a) \<Rightarrow>
             ([updateToast ((attempts + 1) * 2), Ext (Fetch 0 burnHash), Toast dismiss []], m, a)
         | None \<Rightarrow>
             (case poll_attestation env burnHash (attempts + 1) of
                (effs, m, a) \<Rightarrow>
                  (updateToast ((attempts + 1) * 2) # Ext (Fetch 0 burnHash) # effs, m, a)))
      else ([], None, None))"
  by pat_completeness auto
termination
  by (relation "measure (\<lambda>(env, burnHash, attempts). MAX_ATTEMPTS - attempts)") auto

declare poll_attestation.simps [simp del]

subsection \<open>Direct Sepolia-to-Arc path: approval, burn, attestation, mint\<close>

text \<open>From \<open>trackSiteBridge\<close> after the successful burn receipt to the end of the path.\<close>

definition direct_after_burn :: "env \<Rightarrow> BridgeParams \<Rightarrow> string \<Rightarrow> string \<Rightarrow> effect list" where
  "direct_after_burn env p address burnHash =
     [Ext (TrackSiteBridge (Some burnHash)),
      SetAttestationStatus (Some st_pending),
      updateToast 0] @
     (case poll_attestation env burnHash 0 of
        (effs, messageBytes, attestationBytes) \<Rightarrow>
          effs @
          (if \<not> truthy messageBytes \<or> \<not> truthy attestationBytes then
             [Toast dismiss [],
              Toast warning ''Attestation taking longer than expected''] @
             (if address \<noteq> [] then [Persist address (Some (newPendingBurn env p (Some burnHash)))]
              else []) @
             [SetAttestationStatus (Some st_pending_mint),
              SetState (\<lambda>prev. prev\<lparr>isBridging := False,
                                     pendingBurn := Some (newPendingBurn env p (Some burnHash))\<rparr>)]
           else
             [Toast info ''Minting on Arc...'',
              SetAttestationStatus (Some st_pending_mint)] @
             (case (messageBytes, attestationBytes) of
                (Some m, Some a) \<Rightarrow> direct_mint env p address burnHash m a
              | _ \<Rightarrow> [])))"

text \<open>
  Step 2 of the path: the fee, the burn transaction, its receipt. The two refs are set
  right after \<open>sendTransaction\<close> returns, before the receipt is awaited.
\<close>

definition direct_burn :: "env \<Rightarrow> BridgeParams \<Rightarrow> string \<Rightarrow> int \<Rightarrow> effect list" where
  "direct_burn env p address amountWei =
     Toast info ''Bridging to Arc...'' #
     Ext (BurnTx amountWei (maxFee amountWei)) #
     (case sendBurn env amountWei (maxFee amountWei) of
        Inl e \<Rightarrow> bridge_catch env p address refs0 e
      | Inr burnHash \<Rightarrow>
          Ext (BurnSubmitted burnHash) #
          (let r = refs0\<lparr>burnTxHashRef := Some burnHash, burnConfirmedRef := True\<rparr>
           in case waitBurn env burnHash of
                Inl e \<Rightarrow> bridge_catch env p address r e
              | Inr ok \<Rightarrow>
                  Ext (BurnReceipt burnHash ok) #
                  (if \<not> ok then bridge_catch env p address r (Error ''Bridge transaction failed'')
                   else direct_after_burn env p address burnHash)))"

text \<open>The direct path from \<open>if (!walletClient)\<close> on.\<close>

definition bridge_direct :: "env \<Rightarrow> BridgeParams \<Rightarrow> string \<Rightarrow> effect list" where
  "bridge_direct env p address =
     (if \<not> walletClient env then bridge_catch env p address refs0 (Error ''Wallet not ready'')
      else
        (case parseUnits env (p_amount p) of
           Inl e \<Rightarrow> bridge_catch env p address refs0 e
         | Inr amountWei \<Rightarrow>
             Ext ReadAllowance #
             (case readAllowance env of
                Inl e \<Rightarrow> bridge_catch env p address refs0 e
              | Inr allowance \<Rightarrow>
                  if allowance < amountWei then
                    Toast info ''Approving USDC...'' #
                    Ext (ApproveTx (amountWei * 10)) #
                    (case approve env (amountWei * 10) of
                       Inl e \<Rightarrow> bridge_catch env p address refs0 e
                     | Inr approveHash \<Rightarrow>
                         (case waitApprove env approveHash of
                            Some e \<Rightarrow> bridge_catch env p address refs0 e
                          | None \<Rightarrow>
                              Ext (ApproveReceipt approveHash) #
                              direct_burn env p address amountWei))
                  else direct_burn env p address amountWei)))"

subsection \<open>Arc-to-Sepolia path: the Bridge Kit SDK\<close>

text \<open>
  The \<open>onProgress\<close> callback. Its \<open>setState\<close> calls that only touch \<open>transactions\<close> are
  left out with that field.
\<close>

definition onProgress :: "progress \<Rightarrow> refs \<Rightarrow> effect list \<times> refs" where
  "onProgress pr r =
     (let t = eventType pr; h = p_txHash pr
      in if t = Some ''approval'' \<or> t = Some ''APPROVAL_STARTED'' then
           ([Toast info ''Approving USDC...''],
            r\<lparr>approvalStartedRef := True,
              approvalTxHashRef := (if truthy h then h else approvalTxHashRef r)\<rparr>)
         else if t = Some ''APPROVAL_CONFIRMED'' then
           ([], r\<lparr>approvalConfirmedRef := True\<rparr>)
         else if t = Some ''burn'' \<or> t = Some ''BURN_STARTED'' then
           (Toast info ''Burning USDC on source chain...'' #
              (if truthy h then [Ext (TrackSiteBridge h)] else []),
            r\<lparr>burnTxHashRef := (if truthy h then h else burnTxHashRef r)\<rparr>)
         else if t = Some ''BURN_CONFIRMED'' then
           ((if truthy h then [Ext (TrackSiteBridge h)] else []),
            r\<lparr>burnConfirmedRef := True,
              burnTxHashRef := (if truthy h \<and> \<not> truthy (burnTxHashRef r) then h
                                else burnTxHashRef r)\<rparr>)
         else if t = Some ''attestation'' \<or> t = Some ''ATTESTATION_PENDING'' then
           ([SetAttestationStatus (Some st_pending),
             Toast info ''Waiting for Circle attestation (~30 sec)...''],
            r\<lparr>burnConfirmedRef := True\<rparr>)
         else if t = Some ''ATTESTATION_COMPLETE'' then
           ([SetAttestationStatus (Some st_attested)], r\<lparr>burnConfirmedRef := True\<rparr>)
         else if t = Some ''mint'' \<or> t = Some ''MINT_STARTED'' then
           ([Toast info ''Minting USDC on destination chain...''], r)
         else if t = Some ''MINT_CONFIRMED'' \<or> t = Some ''complete'' then
           ([SetState (\<lambda>prev. prev\<lparr>mintConfirmed := True\<rparr>)], r\<lparr>mintConfirmedRef := True\<rparr>)
         else ([], r))"

fun run_progress :: "progress list \<Rightarrow> refs \<Rightarrow> effect list \<times> refs" where
  "run_progress [] r = ([], r)"
| "run_progress (pr # prs) r =
     (case onProgress pr r of
        (e1, r1) \<Rightarrow> (case run_progress prs r1 of (e2, r2) \<Rightarrow> (e1 @ e2, r2)))"

text \<open>\<open>s.name?.toLowerCase().includes(x)\<close>\<close>

definition lower_includes :: "string option \<Rightarrow> string \<Rightarrow> bool" where
  "lower_includes so x = (case so of None \<Rightarrow> False | Some s \<Rightarrow> str_includes (toLowerCase s) x)"

definition is_burn_step :: "sdk_step \<Rightarrow> bool" where
  "is_burn_step s = (lower_includes (s_name s) ''burn'' \<or> lower_includes (s_name s) ''deposit'' \<or>
                     lower_includes (s_type s) ''burn'')"

definition is_mint_step :: "sdk_step \<Rightarrow> bool" where
  "is_mint_step s = (lower_includes (s_name s) ''mint'' \<or> lower_includes (s_type s) ''mint'')"

text \<open>\<open>step?.state\<close> and \<open>step?.txHash || step?.transactionHash\<close> of an optional step.\<close>

definition step_state :: "sdk_step option \<Rightarrow> string option" where
  "step_state so = (case so of None \<Rightarrow> None | Some s \<Rightarrow> s_state s)"

definition step_hash :: "sdk_step option \<Rightarrow> string option" where
  "step_hash so = (case so of None \<Rightarrow> None | Some s \<Rightarrow> s_txHash s)"

text \<open>
  The single request to the attestation service that the result analysis makes:
  \<open>True\<close> when the first message carries a usable attestation; every failure is caught.
\<close>

definition attested_now :: "env \<Rightarrow> nat \<Rightarrow> string \<Rightarrow> bool" where
  "attested_now env domain h =
     (case fetchAttestation env domain h 0 of
        FetchThrows \<Rightarrow> False
      | Response ok body \<Rightarrow>
          (case body of
             JsonThrows \<Rightarrow> False
           | Json messages \<Rightarrow>
               (case first_message messages of
                  None \<Rightarrow> False
                | Some m \<Rightarrow> usable (msg_attestation m))))"

definition opt_string :: "string option \<Rightarrow> string" where
  "opt_string so = (case so of None \<Rightarrow> [] | Some s \<Rightarrow> s)"

text \<open>The branch \<open>burnSucceeded && !mintSucceeded\<close>.\<close>

definition sdk_burn_only ::
  "env \<Rightarrow> BridgeParams \<Rightarrow> string \<Rightarrow> refs \<Rightarrow> sdk_step option \<Rightarrow> effect list" where
  "sdk_burn_only env p address r burnStep =
     (let burnTxHash = (if truthy (burnTxHashRef r) then burnTxHashRef r else step_hash burnStep);
          sourceDomain = domain_of env (p_fromNetwork p);
          relayCompleted = (truthy burnTxHash \<and> attested_now env sourceDomain (opt_string burnTxHash))
      in (if truthy burnTxHash
          then [Ext (TrackSiteBridge burnTxHash), Ext (Fetch sourceDomain (opt_string burnTxHash))]
          else []) @
         (if relayCompleted then
            [SetAttestationStatus (Some st_complete),
             Toast success ''Bridge completed!'',
             SetState (\<lambda>prev. prev\<lparr>isBridging := False, mintConfirmed := True, pendingBurn := None\<rparr>)]
          else if mintConfirmedRef r then []
          else
            [SetAttestationStatus (Some st_pending_mint),
             Toast warning ''Your funds are safe!''] @
            (if truthy burnTxHash \<and> address \<noteq> []
             then [Persist address (Some (newPendingBurn env p burnTxHash))] else []) @
            [SetState (\<lambda>prev. prev\<lparr>isBridging := False,
                error := Some ''Mint was not completed. Your funds are safe - click Claim USDC.'',
                mintConfirmed := False,
                pendingBurn := (if truthy burnTxHash then Some (newPendingBurn env p burnTxHash)
                                else None)\<rparr>)]))"

text \<open>The final \<open>else\<close> branch of the result analysis.\<close>

definition sdk_cancelled :: "effect list" where
  "sdk_cancelled =
     [Toast toast_error ''Bridge cancelled'',
      SetState (\<lambda>prev. prev\<lparr>isBridging := False, error := Some ''Transaction was cancelled'',
                             mintConfirmed := False\<rparr>)]"

definition sdk_unclear ::
  "env \<Rightarrow> BridgeParams \<Rightarrow> string \<Rightarrow> refs \<Rightarrow> sdk_result \<Rightarrow> effect list" where
  "sdk_unclear env p address r result =
     (if burnConfirmedRef r \<and> truthy (burnTxHashRef r) then
        [Ext (TrackSiteBridge (burnTxHashRef r)),
         SetAttestationStatus (Some st_pending_mint),
         Toast warning ''Your funds are safe!''] @
        (if address \<noteq> [] then [Persist address (Some (newPendingBurn env p (burnTxHashRef r)))]
         else []) @
        [SetState (\<lambda>prev. prev\<lparr>isBridging := False, error := None, mintConfirmed := False,
                               pendingBurn := Some (newPendingBurn env p (burnTxHashRef r))\<rparr>)]
      else
        SetAttestationStatus None #
        (if approvalConfirmedRef r then
           [Toast warning ''Approval successful'',
            SetState (\<lambda>prev. prev\<lparr>isBridging := False,
                error := Some ''Approval completed. Please try again to bridge.'',
                mintConfirmed := False\<rparr>)]
         else if approvalStartedRef r then
           [Toast warning ''Approval pending'',
            SetState (\<lambda>prev. prev\<lparr>isBridging := False,
                error := Some ''Approval transaction pending. Please wait and try again.'',
                mintConfirmed := False\<rparr>)]
         else
           (let anyTxHash = (case find (\<lambda>s. truthy (s_txHash s)) (r_steps result) of
                               Some s \<Rightarrow> s_txHash s
                             | None \<Rightarrow> r_txHash result);
                sourceDomain = domain_of env (p_fromNetwork p)
            in if truthy anyTxHash then
                 Ext (Fetch sourceDomain (opt_string anyTxHash)) #
                 (if attested_now env sourceDomain (opt_string anyTxHash) then
                    [Ext (TrackSiteBridge anyTxHash),
                     SetAttestationStatus (Some st_complete),
                     Toast success ''Bridge completed!'',
                     SetState (\<lambda>prev. prev\<lparr>isBridging := False, mintConfirmed := True,
                                            pendingBurn := None\<rparr>)]
                  else sdk_cancelled)
               else sdk_cancelled)))"

text \<open>The analysis of the value returned by \<open>bridgeKit.bridge\<close>.\<close>

definition sdk_analyse ::
  "env \<Rightarrow> BridgeParams \<Rightarrow> string \<Rightarrow> refs \<Rightarrow> sdk_result \<Rightarrow> effect list" where
  "sdk_analyse env p address r result =
     (let burnStep = find is_burn_step (r_steps result);
          mintStep = find is_mint_step (r_steps result);
          burnSucceeded = (step_state burnStep = Some ''success'' \<or> burnConfirmedRef r);
          mintSucceeded = (step_state mintStep = Some ''success'' \<or> mintConfirmedRef r)
      in if r_state result = Some ''success'' then
           (if truthy (step_hash burnStep) then [Ext (TrackSiteBridge (step_hash burnStep))] else []) @
           [SetAttestationStatus (Some st_complete),
            Toast success ''Bridge completed!'',
            SetState (\<lambda>prev. prev\<lparr>isBridging := False, mintConfirmed := True\<rparr>)]
         else if burnSucceeded \<and> \<not> mintSucceeded then sdk_burn_only env p address r burnStep
         else sdk_unclear env p address r result)"

definition bridge_sdk :: "env \<Rightarrow> BridgeParams \<Rightarrow> string \<Rightarrow> effect list" where
  "bridge_sdk env p address =
     Ext (SdkBridge (p_fromNetwork p) (p_toNetwork p) (p_amount p)) #
     (case run_progress (sdk_progress env) refs0 of
        (effs, r) \<Rightarrow>
          effs @
          (case sdk_outcome env of
             Inl e \<Rightarrow> bridge_catch env p address r e
           | Inr result \<Rightarrow> sdk_analyse env p address r result))"

subsection \<open>bridge\<close>

text \<open>The state that \<open>bridge\<close> installs when it starts, and after a failed first switch.\<close>

definition bridging_state :: BridgeState where
  "bridging_state = \<lparr>isBridging = True, isClaiming = False, error = None,
                     mintConfirmed = False, pendingBurn = None\<rparr>"

definition switch_failed_state :: BridgeState where
  "switch_failed_state = \<lparr>isBridging = False, isClaiming = False,
                          error = Some ''Failed to switch network'',
                          mintConfirmed = False, pendingBurn = None\<rparr>"

text \<open>The outer \<open>try\<close> block.\<close>

definition bridge_try :: "env \<Rightarrow> BridgeParams \<Rightarrow> string \<Rightarrow> effect list" where
  "bridge_try env p address =
     (if \<not> provider env then
        bridge_catch env p address refs0 (Error ''No wallet provider available'')
      else
        Ext CreateAdapter #
        (case createAdapterFromProvider env of
           Some e \<Rightarrow> bridge_catch env p address refs0 e
         | None \<Rightarrow>
             if p_fromNetwork p = ethereumSepolia \<and> p_toNetwork p = arcTestnet
             then bridge_direct env p address
             else bridge_sdk env p address))"

text \<open>The three guards at the head of \<open>bridge\<close>.\<close>

definition bridge_accepts :: "env \<Rightarrow> BridgeParams \<Rightarrow> bool" where
  "bridge_accepts env p =
     (isConnected env \<and> truthy (account_address env) \<and> connectorClient env \<and> walletClient env \<and>
      \<not> (p_amount p = [] \<or> parseFloat_le_0 env (p_amount p)) \<and>
      ((p_fromNetwork p = ethereumSepolia \<and> p_toNetwork p = arcTestnet) \<or>
       (p_fromNetwork p = arcTestnet \<and> p_toNetwork p = ethereumSepolia)))"

definition bridge :: "env \<Rightarrow> BridgeParams \<Rightarrow> effect list" where
  "bridge env p =
     (if \<not> isConnected env \<or> \<not> truthy (account_address env) \<or> \<not> connectorClient env \<or>
         \<not> walletClient env
      then [Toast toast_error ''Please connect your wallet first'']
      else if p_amount p = [] \<or> parseFloat_le_0 env (p_amount p)
      then [Toast toast_error ''Please enter a valid amount'']
      else if \<not> (p_fromNetwork p = ethereumSepolia \<and> p_toNetwork p = arcTestnet) \<and>
              \<not> (p_fromNetwork p = arcTestnet \<and> p_toNetwork p = ethereumSepolia)
      then [Toast toast_error ''Only Ethereum Sepolia <-> Arc Testnet is supported'']
      else
        (let address = opt_string (account_address env);
             requiredChainId = chainId_of env (p_fromNetwork p)
         in [Persist address None,
             SetState (\<lambda>prev. bridging_state),
             SetAttestationStatus None] @
            (if account_chainId env \<noteq> Some requiredChainId then
               Ext (SwitchChain requiredChainId) #
               (case switchChainAsync env requiredChainId of
                  Some e \<Rightarrow>
                    [SetState (\<lambda>prev. switch_failed_state),
                     Toast toast_error ''Failed to switch network'']
                | None \<Rightarrow> bridge_try env p address)
             else bridge_try env p address)))"

section \<open>Claim, reconciliation, restore and dismissal\<close>

text \<open>
  The other callbacks of the hook (\<open>estimateBridge\<close>, \<open>completeBridge\<close>, \<open>retryBridge\<close>,
  \<open>reset\<close>) never call \<open>savePendingBurn\<close> or \<open>loadPendingBurn\<close> and are not modelled.
\<close>

text \<open>A transaction hash inside a template string: \<open>null\<close> prints as \<open>null\<close>.\<close>

definition url_hash :: "string option \<Rightarrow> string" where
  "url_hash h = (case h of None \<Rightarrow> ''null'' | Some s \<Rightarrow> s)"

text \<open>
  \<open>for (const { domain, ... } of domains) { try { fetch; if the answer has a message,
  keep \<open>messages[0]\<close> and break } catch { next } }\<close>, used by \<open>claimPendingBridge\<close> and
  \<open>restorePendingBurn\<close>; \<open>x\<close> is what the entry carries besides the domain.
\<close>

fun find_message ::
  "env \<Rightarrow> string \<Rightarrow> (nat \<times> 'a) list \<Rightarrow> effect list \<times> (att_message \<times> 'a) option" where
  "find_message env h [] = ([], None)"
| "find_message env h ((domain, x) # rest) =
     (case (case fetchAttestation env domain h 0 of
              FetchThrows \<Rightarrow> None
            | Response ok body \<Rightarrow>
                (case body of JsonThrows \<Rightarrow> None | Json messages \<Rightarrow> first_message messages)) of
        Some m \<Rightarrow> ([Ext (Fetch domain h)], Some (m, x))
      | None \<Rightarrow>
          (case find_message env h rest of
             (effs, found) \<Rightarrow> (Ext (Fetch domain h) # effs, found)))"

subsection \<open>claimPendingBridge\<close>

definition still_processing :: string where
  "still_processing = ''Attestation is still being processed. This usually takes 1-3 minutes. Please wait a moment and try again.''"

text \<open>The saved direction first, then the reverse direction.\<close>

definition claim_domains :: "env \<Rightarrow> PendingBurn \<Rightarrow> (nat \<times> BridgeNetwork) list" where
  "claim_domains env pb =
     [(domain_of env (fromNetwork pb), toNetwork pb),
      (domain_of env (if fromNetwork pb = ethereumSepolia then arcTestnet else ethereumSepolia),
       (if fromNetwork pb = ethereumSepolia then ethereumSepolia else arcTestnet))]"

text \<open>
  Step 3, "Switch to destination network if needed": every failure inside is rethrown
  as "Failed to switch network". The result is the number of \<open>eth_chainId\<close> requests made.
\<close>

definition claim_switch :: "env \<Rightarrow> BridgeNetwork \<Rightarrow> effect list \<times> (js_error + nat)" where
  "claim_switch env destNetwork =
     (let destChainId = chainId_of env destNetwork;
          failed = Error (''Failed to switch network. Please switch to '' @ name_of env destNetwork @
                          '' manually.'')
      in if account_chainId env \<noteq> Some destChainId then
           (case switchChainAsync env destChainId of
              Some e \<Rightarrow>
                ([Toast info (''Switching to '' @ name_of env destNetwork @ ''...''),
                  Ext (SwitchChain destChainId)], Inl failed)
            | None \<Rightarrow>
                if \<not> provider env then
                  ([Toast info (''Switching to '' @ name_of env destNetwork @ ''...''),
                    Ext (SwitchChain destChainId)], Inl failed)
                else
                  (case verify_switch env destChainId 0 of
                     (effs, res) \<Rightarrow>
                       (Toast info (''Switching to '' @ name_of env destNetwork @ ''...'') #
                        Ext (SwitchChain destChainId) # effs,
                        (case res of
                           Inl e \<Rightarrow> Inl failed
                         | Inr attempts \<Rightarrow> if attempts \<ge> 10 then Inl failed else Inr (attempts + 1)))))
         else ([], Inr 0))"

text \<open>
  Step 4: the chain check, \<open>receiveMessage\<close> on the destination, the wait for the
  receipt (whose status is not looked at), and the success epilogue. \<open>None\<close> in the
  second component means the \<open>try\<close> block ran to its end, \<open>Some e\<close> that it threw \<open>e\<close>.
\<close>

definition claim_submit ::
  "env \<Rightarrow> string \<Rightarrow> BridgeNetwork \<Rightarrow> string \<Rightarrow> string \<Rightarrow> nat \<Rightarrow> effect list \<times> js_error option" where
  "claim_submit env address destNetwork messageBytes attestation req =
     (let destChainId = chainId_of env destNetwork;
          done = (if address \<noteq> [] then [Persist address None] else []) @
                 [Toast success ''USDC claimed successfully!'',
                  SetAttestationStatus (Some st_complete),
                  SetState (\<lambda>prev. prev\<lparr>isClaiming := False, mintConfirmed := True,
                                         pendingBurn := None, error := None\<rparr>)]
      in if \<not> provider env then
           ([Toast info ''Claiming your USDC...''],
            Some (Error ''No wallet provider available after network switch''))
         else
           (case eth_chainId env req of
              Inl e \<Rightarrow> ([Toast info ''Claiming your USDC...'', Ext EthChainId], Some e)
            | Inr currentChainId \<Rightarrow>
                if currentChainId \<noteq> destChainId then
                  ([Toast info ''Claiming your USDC...'', Ext EthChainId],
                   Some (Error (''Network not switched: current '' @ string_of_nat currentChainId @
                                '', expected '' @ string_of_nat destChainId)))
                else
                  (case receiveMessage env destNetwork messageBytes attestation of
                     Inl e \<Rightarrow>
                       ([Toast info ''Claiming your USDC...'', Ext EthChainId,
                         Ext (MintTx destNetwork messageBytes attestation)], Some e)
                   | Inr hash \<Rightarrow>
                       if publicClient env destNetwork then
                         (case waitMint env destNetwork hash of
                            Inl e \<Rightarrow>
                              ([Toast info ''Claiming your USDC...'', Ext EthChainId,
                                Ext (MintTx destNetwork messageBytes attestation),
                                Ext (MintSubmitted hash),
                                Toast info ''Waiting for confirmation...''], Some e)
                          | Inr ok \<Rightarrow>
                              ([Toast info ''Claiming your USDC...'', Ext EthChainId,
                                Ext (MintTx destNetwork messageBytes attestation),
                                Ext (MintSubmitted hash),
                                Toast info ''Waiting for confirmation...'',
                                Ext (MintReceipt hash ok)] @ done, None))
                       else
                         ([Toast info ''Claiming your USDC...'', Ext EthChainId,
                           Ext (MintTx destNetwork messageBytes attestation),
                           Ext (MintSubmitted hash),
                           Toast info ''Waiting for confirmation...''] @ done, None))))"

text \<open>The \<open>try\<close> block of \<open>claimPendingBridge\<close>.\<close>

definition claim_try :: "env \<Rightarrow> string \<Rightarrow> PendingBurn \<Rightarrow> effect list \<times> js_error option" where
  "claim_try env address pb =
     (case find_message env (url_hash (txHash pb)) (claim_domains env pb) of
        (effs1, found) \<Rightarrow>
          (case found of
             None \<Rightarrow>
               (Toast info ''Fetching attestation from Circle...'' # effs1,
                Some (Error still_processing))
           | Some (messageData, destNetwork) \<Rightarrow>
               if \<not> truthy (msg_attestation messageData) \<or>
                  msg_attestation messageData = Some ''PENDING''
               then (Toast info ''Fetching attestation from Circle...'' # effs1,
                     Some (Error still_processing))
               else if \<not> truthy (msg_message messageData)
               then (Toast info ''Fetching attestation from Circle...'' # effs1,
                     Some (Error ''Message bytes not found in attestation response''))
               else
                 (case claim_switch env destNetwork of
                    (effs2, Inl e) \<Rightarrow>
                      (Toast info ''Fetching attestation from Circle...'' # effs1 @ effs2, Some e)
                  | (effs2, Inr req) \<Rightarrow>
                      (case claim_submit env address destNetwork
                              (opt_string (msg_message messageData))
                              (opt_string (msg_attestation messageData)) req of
                         (effs3, thrown) \<Rightarrow>
                           (Toast info ''Fetching attestation from Circle...'' # effs1 @ effs2 @ effs3,
                            thrown)))))"

text \<open>The \<open>catch (error)\<close> block of \<open>claimPendingBridge\<close>.\<close>

definition claim_errorMsg :: "js_error \<Rightarrow> string" where
  "claim_errorMsg e = (if truthy (err_message e) then opt_string (err_message e)
                       else ''Failed to claim USDC'')"

definition already_claimed :: "string \<Rightarrow> bool" where
  "already_claimed errorMsg =
     (str_includes errorMsg ''already received'' \<or> str_includes errorMsg ''Nonce already used'')"

definition claim_catch :: "string \<Rightarrow> js_error \<Rightarrow> effect list" where
  "claim_catch address e =
     (if already_claimed (claim_errorMsg e) then
        (if address \<noteq> [] then [Persist address None] else []) @
        [SetState (\<lambda>prev. prev\<lparr>isClaiming := False, pendingBurn := None, error := None\<rparr>),
         SetAttestationStatus (Some st_complete),
         Toast success ''Transfer already completed!'']
      else
        [SetState (\<lambda>prev. prev\<lparr>isClaiming := False, error := Some (claim_errorMsg e)\<rparr>),
         Toast toast_error ''Claim failed''])"

text \<open>\<open>claimPendingBridge\<close>; \<open>st\<close> is the hook state the callback was created with.\<close>

definition claimPendingBridge :: "env \<Rightarrow> BridgeState \<Rightarrow> effect list" where
  "claimPendingBridge env st =
     (case pendingBurn st of
        None \<Rightarrow> [Toast toast_error ''No pending burn to claim'']
      | Some pb \<Rightarrow>
          if \<not> walletClient env \<or> \<not> truthy (account_address env)
          then [Toast toast_error ''Please connect your wallet'']
          else
            SetState (\<lambda>prev. prev\<lparr>isClaiming := True, error := None\<rparr>) #
            (case claim_try env (opt_string (account_address env)) pb of
               (effs, None) \<Rightarrow> effs
             | (effs, Some e) \<Rightarrow> effs @ claim_catch (opt_string (account_address env)) e))"

subsection \<open>The wallet-connect effect: verifyAndLoad\<close>

text \<open>
  \<open>Ext AutoClaim\<close> is the \<open>setTimeout\<close> that calls \<open>claimPendingBridgeRef.current\<close>
  one second later.
\<close>

definition verifyAndLoad :: "env \<Rightarrow> string \<Rightarrow> PendingBurn \<Rightarrow> effect list" where
  "verifyAndLoad env address savedPendingBurn =
     (let sourceDomain = domain_of env (fromNetwork savedPendingBurn);
          h = url_hash (txHash savedPendingBurn);
          caught = [SetState (\<lambda>prev. prev\<lparr>pendingBurn := Some savedPendingBurn\<rparr>),
                    SetAttestationStatus (Some st_pending_mint)]
      in Ext (Fetch sourceDomain h) #
         (case fetchAttestation env sourceDomain h 0 of
            FetchThrows \<Rightarrow> caught
          | Response ok body \<Rightarrow>
              (case body of
                 JsonThrows \<Rightarrow> caught
               | Json messages \<Rightarrow>
                   (case first_message messages of
                      Some messageData \<Rightarrow>
                        (let amount1 =
                               (if amount savedPendingBurn = [] \<or> amount savedPendingBurn = ''0''
                                then (if truthy (msg_amount messageData)
                                      then amount_of_units env (opt_string (msg_amount messageData))
                                      else amount savedPendingBurn)
                                else amount savedPendingBurn);
                             updatedPendingBurn = savedPendingBurn\<lparr>amount := amount1\<rparr>
                         in (if \<not> truthy (msg_attestation messageData) \<or>
                                msg_attestation messageData = Some ''PENDING''
                             then [SetAttestationStatus (Some st_pending),
                                   Toast info ''Bridge in progress...'']
                             else
                               SetAttestationStatus (Some st_pending_mint) #
                               (if account_chainId env = Some (chainId_of env arcTestnet)
                                then [Toast info ''Auto-claiming bridged USDC...'', Ext AutoClaim]
                                else [Toast info ''You have unclaimed USDC!''])) @
                            [Persist address (Some updatedPendingBurn),
                             SetState (\<lambda>prev. prev\<lparr>pendingBurn := Some updatedPendingBurn\<rparr>)])
                    | None \<Rightarrow>
                        [Persist address None,
                         SetState (\<lambda>prev. prev\<lparr>pendingBurn := None\<rparr>)]))))"

text \<open>The \<open>useEffect\<close> on \<open>address\<close>, run against the current store.\<close>

definition onWalletConnect :: "env \<Rightarrow> localStorage \<Rightarrow> effect list" where
  "onWalletConnect env ls =
     (if truthy (account_address env) then
        (case loadPendingBurn (opt_string (account_address env)) ls of
           None \<Rightarrow> []
         | Some savedPendingBurn \<Rightarrow>
             verifyAndLoad env (opt_string (account_address env)) savedPendingBurn)
      else [])"

subsection \<open>restorePendingBurn and clearPendingBurn\<close>

record restore_result =
  res_success :: bool
  res_message :: string
  res_type :: string

definition restore_domains :: "env \<Rightarrow> (nat \<times> BridgeNetwork \<times> BridgeNetwork) list" where
  "restore_domains env =
     [(domain_of env ethereumSepolia, ethereumSepolia, arcTestnet),
      (domain_of env arcTestnet, arcTestnet, ethereumSepolia)]"

text \<open>
  The parameters \<open>_fromNetwork\<close>, \<open>_toNetwork\<close> and \<open>_amount\<close> are unused by the source.
  \<open>burnTxHash.length\<close> counts UTF-16 units, \<open>length\<close> here counts characters; the two
  agree on ASCII input.
\<close>

definition restorePendingBurn :: "env \<Rightarrow> string \<Rightarrow> effect list \<times> restore_result" where
  "restorePendingBurn env burnTxHash =
     (if burnTxHash = [] \<or> \<not> startsWith burnTxHash ''0x'' then
        ([], \<lparr>res_success = False, res_message = ''Invalid transaction hash format'',
              res_type = ''error''\<rparr>)
      else if length burnTxHash \<noteq> 66 then
        ([], \<lparr>res_success = False, res_message = ''Transaction hash should be 66 characters'',
              res_type = ''error''\<rparr>)
      else
        (case find_message env burnTxHash (restore_domains env) of
           (effs, found) \<Rightarrow>
             (case found of
                None \<Rightarrow>
                  (effs, \<lparr>res_success = False,
                          res_message = ''No CCTP burn found for this transaction. Make sure this is a valid burn tx hash.'',
                          res_type = ''error''\<rparr>)
              | Some (messageData, detectedFrom, detectedTo) \<Rightarrow>
                  (let detectedAmount =
                         (if truthy (msg_amount messageData)
                          then amount_of_units_fixed env (opt_string (msg_amount messageData))
                          else ''0'');
                       pb = \<lparr>txHash = Some burnTxHash, fromNetwork = detectedFrom,
                             toNetwork = detectedTo, amount = detectedAmount,
                             timestamp = now env\<rparr>
                   in if \<not> truthy (msg_attestation messageData) \<or>
                         msg_attestation messageData = Some ''PENDING''
                      then (effs, \<lparr>res_success = False, res_message = still_processing,
                                   res_type = ''error''\<rparr>)
                      else
                        (effs @
                         (if truthy (account_address env)
                          then [Persist (opt_string (account_address env)) (Some pb)] else []) @
                         [SetState (\<lambda>prev. prev\<lparr>pendingBurn := Some pb\<rparr>),
                          SetAttestationStatus (Some st_pending_mint)],
                         \<lparr>res_success = True,
                          res_message = ''Found '' @ detectedAmount @ '' USDC ('' @
                            (if detectedFrom = ethereumSepolia then ''Sepolia -> Arc''
                             else ''Arc -> Sepolia'') @ ''). Click Claim to receive!'',
                          res_type = ''success''\<rparr>)))))"

definition clearPendingBurn :: "env \<Rightarrow> effect list" where
  "clearPendingBurn env =
     (if truthy (account_address env) then [Persist (opt_string (account_address env)) None]
      else []) @
     [SetState (\<lambda>prev. prev\<lparr>pendingBurn := None\<rparr>),
      SetAttestationStatus None]"

section \<open>A concrete environment for evaluation\<close>

text \<open>
  A wallet on Ethereum Sepolia with enough allowance, a burn that confirms, an
  attestation service that knows no message, and a mint that confirms. The instances
  below vary single answers of this environment.
\<close>

definition addr0 :: string where
  "addr0 = ''0x1111111111111111111111111111111111111111''"

definition addrB :: string where
  "addrB = ''0x2222222222222222222222222222222222222222''"

definition hashA :: string where
  "hashA = ''0xaaaaaaaaaaaaaaaaaaaaaaaaaaaaaaaaaaaaaaaaaaaaaaaaaaaaaaaaaaaaaaaa''"

definition env0 :: env where
  "env0 =
     \<lparr>isConnected = True,
      account_address = Some addr0,
      account_chainId = Some 11155111,
      connectorClient = True,
      walletClient = True,
      provider = True,
      publicClient = (\<lambda>n. True),
      chainId_of = (\<lambda>n. case n of ethereumSepolia \<Rightarrow> 11155111 | arcTestnet \<Rightarrow> 5042002),
      name_of = (\<lambda>n. case n of ethereumSepolia \<Rightarrow> ''Ethereum Sepolia''
                              | arcTestnet \<Rightarrow> ''Arc Testnet''),
      domain_of = (\<lambda>n. case n of ethereumSepolia \<Rightarrow> 0 | arcTestnet \<Rightarrow> 26),
      now = 1700000000000,
      parseFloat_le_0 = (\<lambda>s. s = ''0''),
      parseUnits = (\<lambda>s. if s = ''20'' then Inr 20000000
                         else Inl (Error ''Invalid decimal number'')),
      amount_of_units = (\<lambda>s. ''20''),
      amount_of_units_fixed = (\<lambda>s. ''20.00''),
      switchChainAsync = (\<lambda>c. None),
      createAdapterFromProvider = None,
      readAllowance = Inr 200000000,
      approve = (\<lambda>a. Inr ''0xapprove''),
      waitApprove = (\<lambda>h. None),
      sendBurn = (\<lambda>a f. Inr hashA),
      waitBurn = (\<lambda>h. Inr True),
      fetchAttestation = (\<lambda>d h i. Response True (Json (Some []))),
      eth_chainId = (\<lambda>i. Inr 5042002),
      receiveMessage = (\<lambda>n m a. Inr ''0xmint''),
      waitMint = (\<lambda>n h. Inr True),
      sdk_progress = [],
      sdk_outcome = Inr \<lparr>r_state = None, r_steps = [], r_txHash = None\<rparr>\<rparr>"

definition params0 :: BridgeParams where
  "params0 = \<lparr>p_fromNetwork = ethereumSepolia, p_toNetwork = arcTestnet, p_amount = ''20''\<rparr>"

definition idle_state :: BridgeState where
  "idle_state = \<lparr>isBridging = False, isClaiming = False, error = None,
                 mintConfirmed = False, pendingBurn = None\<rparr>"

definition world0 :: world where
  "world0 = \<lparr>storage = None, ui = idle_state, attestationStatus = None, toasts = [],
             interactions = []\<rparr>"

text \<open>Two stored records: one of \<open>addr0\<close> towards Arc, one of \<open>addrB\<close> towards Sepolia.\<close>

definition recA :: PendingBurn where
  "recA = \<lparr>txHash = Some hashA, fromNetwork = ethereumSepolia, toNetwork = arcTestnet,
           amount = ''20'', timestamp = 1700000000000\<rparr>"

definition recB :: PendingBurn where
  "recB = \<lparr>txHash = Some hashA, fromNetwork = arcTestnet, toNetwork = ethereumSepolia,
           amount = ''5'', timestamp = 1690000000000\<rparr>"

text \<open>A store in which \<open>addr0\<close> has the record \<open>recA\<close> of an earlier transfer.\<close>

definition world1 :: world where
  "world1 = \<lparr>storage = Some [(addr0, recA)], ui = idle_state, attestationStatus = None,
             toasts = [], interactions = []\<rparr>"

text \<open>An attested message, and the environment whose attestation service returns it.\<close>

definition msg0 :: att_message where
  "msg0 = \<lparr>msg_attestation = Some ''0xa77e57'', msg_message = Some ''0x0000'',
           msg_amount = Some ''20000000''\<rparr>"

definition env_attested :: env where
  "env_attested = env0\<lparr>fetchAttestation := \<lambda>d h i. Response True (Json (Some [msg0]))\<rparr>"

text \<open>
  A mint that was already done: the destination contract answers \<open>receiveMessage\<close> with
  "Nonce already used".
\<close>

definition env_already :: env where
  "env_already =
     env_attested\<lparr>account_chainId := Some 5042002,
                  receiveMessage := \<lambda>n m a. Inl (Error ''execution reverted: Nonce already used'')\<rparr>"

definition claiming_state :: BridgeState where
  "claiming_state = idle_state\<lparr>pendingBurn := Some recA\<rparr>"

text \<open>The hash of another burn, of the shape that \<open>restorePendingBurn\<close> accepts.\<close>

definition hashB :: string where
  "hashB = ''0xbbbbbbbbbbbbbbbbbbbbbbbbbbbbbbbbbbbbbbbbbbbbbbbbbbbbbbbbbbbbbbbb''"

text \<open>
  A transfer from Arc to Sepolia through the SDK: the burn is reported as confirmed, the
  attestation service never attests, and the SDK gives up with an error that speaks of
  the network.
\<close>

definition params_back :: BridgeParams where
  "params_back = \<lparr>p_fromNetwork = arcTestnet, p_toNetwork = ethereumSepolia, p_amount = ''20''\<rparr>"

definition env_sdk_timeout :: env where
  "env_sdk_timeout =
     env0\<lparr>account_chainId := Some 5042002,
          sdk_progress :=
            [\<lparr>eventType = Some ''BURN_STARTED'', p_txHash = Some hashA\<rparr>,
             \<lparr>eventType = Some ''BURN_CONFIRMED'', p_txHash = Some hashA\<rparr>,
             \<lparr>eventType = Some ''ATTESTATION_PENDING'', p_txHash = None\<rparr>],
          sdk_outcome := Inl (Error ''Attestation timed out: network request failed'')\<rparr>"

section \<open>Notions used to state and prove the claims\<close>

text \<open>
  An effect is quiet when it writes neither the store, the status nor the state, is no
  error toast, and is neither a burn receipt, a mint interaction nor an automatic claim.
\<close>

fun quiet :: "effect \<Rightarrow> bool" where
  "quiet (Toast k t) = (k \<noteq> toast_error)"
| "quiet (Ext x) =
     (case x of MintTx n m a \<Rightarrow> False | MintSubmitted h \<Rightarrow> False | MintReceipt h ok \<Rightarrow> False
      | BurnReceipt h ok \<Rightarrow> False | AutoClaim \<Rightarrow> False | _ \<Rightarrow> True)"
| "quiet (Persist a pb) = False"
| "quiet (SetAttestationStatus s) = False"
| "quiet (SetState f) = False"

text \<open>
  A write to the store by \<open>bridge\<close> is its own when it concerns the initiator and either
  deletes the record or stores a record built from the parameters of this call.
\<close>

fun own_write :: "env \<Rightarrow> BridgeParams \<Rightarrow> string \<Rightarrow> effect \<Rightarrow> bool" where
  "own_write env p a (Persist a' pb) =
     (a' = a \<and> (pb = None \<or> (\<exists>h. pb = Some (newPendingBurn env p h))))"
| "own_write env p a (SetAttestationStatus s) = True"
| "own_write env p a (SetState f) = True"
| "own_write env p a (Toast k t) = True"
| "own_write env p a (Ext x) = True"

fun no_receipt :: "effect \<Rightarrow> bool" where
  "no_receipt (Ext x) = (case x of BurnReceipt h ok \<Rightarrow> False | _ \<Rightarrow> True)"
| "no_receipt (Persist a pb) = True"
| "no_receipt (SetAttestationStatus s) = True"
| "no_receipt (SetState f) = True"
| "no_receipt (Toast k t) = True"

definition tame :: "env \<Rightarrow> BridgeParams \<Rightarrow> string \<Rightarrow> effect \<Rightarrow> bool" where
  "tame env p a e = (own_write env p a e \<and> no_receipt e)"

text \<open>
  A run in which the burn \<open>h\<close> was confirmed: quiet effects, the successful receipt,
  then the code that follows the confirmation.
\<close>

definition confirmed_run :: "env \<Rightarrow> BridgeParams \<Rightarrow> string \<Rightarrow> string \<Rightarrow> effect list \<Rightarrow> bool" where
  "confirmed_run env p a h effs =
     (\<exists>pre. list_all quiet pre \<and>
            effs = pre @ Ext (BurnReceipt h True) # direct_after_burn env p a h)"

text \<open>The effects that write the record store.\<close>

fun writes_store :: "effect \<Rightarrow> bool" where
  "writes_store (Persist a pb) = True"
| "writes_store (SetAttestationStatus s) = False"
| "writes_store (SetState f) = False"
| "writes_store (Toast k t) = False"
| "writes_store (Ext x) = False"

text \<open>A call of \<open>receiveMessage\<close>.\<close>

fun is_mint_call :: "effect \<Rightarrow> bool" where
  "is_mint_call (Ext x) = (case x of MintTx n m a \<Rightarrow> True | _ \<Rightarrow> False)"
| "is_mint_call (Persist a pb) = False"
| "is_mint_call (SetAttestationStatus s) = False"
| "is_mint_call (SetState f) = False"
| "is_mint_call (Toast k t) = False"

section \<open>Basic facts\<close>

lemma lower_addr0 [simp]: "toLowerCase addr0 = addr0"
  by (simp add: toLowerCase_def lower_char_def addr0_def)

lemma lower_addrB [simp]: "toLowerCase addrB = addrB"
  by (simp add: toLowerCase_def lower_char_def addrB_def)

lemma addr0_neq_addrB [simp]: "addr0 \<noteq> addrB" "addrB \<noteq> addr0"
  by (simp_all add: addr0_def addrB_def)

lemma nonempty0 [simp]: "addr0 \<noteq> []" "addrB \<noteq> []" "hashA \<noteq> []"
  by (simp_all add: addr0_def addrB_def hashA_def)

lemma env0_sel [simp]:
  "isConnected env0" "account_address env0 = Some addr0" "account_chainId env0 = Some 11155111"
  "connectorClient env0" "walletClient env0" "provider env0" "publicClient env0 n"
  "chainId_of env0 ethereumSepolia = 11155111" "chainId_of env0 arcTestnet = 5042002"
  "domain_of env0 ethereumSepolia = 0" "domain_of env0 arcTestnet = 26"
  "now env0 = 1700000000000"
  "parseFloat_le_0 env0 ''20'' = False" "parseUnits env0 ''20'' = Inr 20000000"
  "switchChainAsync env0 c = None"
  "createAdapterFromProvider env0 = None" "readAllowance env0 = Inr 200000000"
  "sendBurn env0 a f = Inr hashA" "waitBurn env0 h = Inr True"
  "fetchAttestation env0 d h i = Response True (Json (Some []))"
  "eth_chainId env0 i = Inr 5042002"
  "receiveMessage env0 n m x = Inr ''0xmint''" "waitMint env0 n h = Inr True"
  by (simp_all add: env0_def)

subsection \<open>The record store\<close>

lemma map_of_delete_key: "map_of (delete_key k data) k = None"
  by (induction data) (auto simp: delete_key_def)

lemma map_of_delete_key_other: "k' \<noteq> k \<Longrightarrow> map_of (delete_key k data) k' = map_of data k'"
  by (induction data) (auto simp: delete_key_def)

lemma load_save_Some: "loadPendingBurn a (savePendingBurn a (Some pb) ls) = Some pb"
  by (simp add: loadPendingBurn_def savePendingBurn_def)

lemma load_save_None: "loadPendingBurn a (savePendingBurn a None ls) = None"
  by (auto simp: loadPendingBurn_def savePendingBurn_def Let_def map_of_delete_key
           split: option.splits)

lemma load_clear_other:
  "toLowerCase b \<noteq> toLowerCase a \<Longrightarrow>
   loadPendingBurn b (savePendingBurn a None ls) = loadPendingBurn b ls"
proof (cases ls)
  case None
  then show ?thesis by (simp add: loadPendingBurn_def savePendingBurn_def)
next
  case (Some stored)
  assume neq: "toLowerCase b \<noteq> toLowerCase a"
  show ?thesis
  proof (cases "delete_key (toLowerCase a) stored")
    case Nil
    have "map_of stored (toLowerCase b) = map_of (delete_key (toLowerCase a) stored) (toLowerCase b)"
      using neq by (simp add: map_of_delete_key_other)
    with Nil Some show ?thesis
      by (simp add: loadPendingBurn_def savePendingBurn_def)
  next
    case (Cons x xs)
    have "map_of (delete_key (toLowerCase a) stored) (toLowerCase b) = map_of stored (toLowerCase b)"
      using neq by (simp add: map_of_delete_key_other)
    with Cons Some show ?thesis
      by (simp add: loadPendingBurn_def savePendingBurn_def)
  qed
qed

subsection \<open>Running effects\<close>

lemma run_Nil [simp]: "run [] w = w"
  by (simp add: run_def)

lemma run_Cons [simp]: "run (e # es) w = run es (apply_effect e w)"
  by (simp add: run_def)

lemma run_append [simp]: "run (xs @ ys) w = run ys (run xs w)"
  by (simp add: run_def)

subsection \<open>Effects of the loops and of the parts of bridge\<close>

lemma quiet_apply:
  "quiet e \<Longrightarrow> storage (apply_effect e w) = storage w \<and> ui (apply_effect e w) = ui w \<and>
     attestationStatus (apply_effect e w) = attestationStatus w"
  by (cases e) auto

lemma quiet_run:
  "list_all quiet effs \<Longrightarrow> storage (run effs w) = storage w \<and> ui (run effs w) = ui w \<and>
     attestationStatus (run effs w) = attestationStatus w"
  by (induction effs arbitrary: w) (auto simp: quiet_apply)

lemma quiet_tame: "quiet e \<Longrightarrow> tame env p a e"
  by (cases e) (auto simp: tame_def split: ext.splits)

lemma list_quiet_tame: "list_all quiet effs \<Longrightarrow> list_all (tame env p a) effs"
  by (induction effs) (auto simp: quiet_tame)

lemma list_tame_own: "list_all (tame env p a) effs \<Longrightarrow> list_all (own_write env p a) effs"
  by (induction effs) (auto simp: tame_def)

lemma poll_quiet: "list_all quiet (fst (poll_attestation env h n))"
proof (induction env h n rule: poll_attestation.induct)
  case (1 env burnHash attempts)
  show ?case
  proof (cases "attempts < MAX_ATTEMPTS")
    case False
    then show ?thesis by (subst poll_attestation.simps) simp
  next
    case True
    show ?thesis
    proof (cases "poll_once env burnHash (attempts + 1)")
      case None
      with True 1 have "list_all quiet (fst (poll_attestation env burnHash (attempts + 1)))"
        by simp
      with True None show ?thesis
        by (subst poll_attestation.simps) (auto simp: updateToast_def split: prod.splits)
    next
      case (Some ma)
      with True show ?thesis
        by (subst poll_attestation.simps) (auto simp: updateToast_def split: prod.splits)
    qed
  qed
qed

lemma poll_timeout:
  "(\<forall>i. n < i \<and> i \<le> MAX_ATTEMPTS \<longrightarrow> poll_once env h i = None) \<Longrightarrow>
   snd (poll_attestation env h n) = (None, None)"
proof (induction env h n rule: poll_attestation.induct)
  case (1 env burnHash attempts)
  show ?case
  proof (cases "attempts < MAX_ATTEMPTS")
    case False
    then show ?thesis by (subst poll_attestation.simps) simp
  next
    case True
    with 1(2) have none: "poll_once env burnHash (attempts + 1) = None" by simp
    from 1(2) have "\<forall>i. attempts + 1 < i \<and> i \<le> MAX_ATTEMPTS \<longrightarrow> poll_once env burnHash i = None"
      by simp
    with 1(1) True none have "snd (poll_attestation env burnHash (attempts + 1)) = (None, None)"
      by simp
    with True none show ?thesis
      by (subst poll_attestation.simps) (auto split: prod.splits)
  qed
qed

lemma verify_switch_quiet: "list_all quiet (fst (verify_switch env t n))"
proof (induction env t n rule: verify_switch.induct)
  case (1 env target attempts)
  show ?case
  proof (cases "attempts < 10")
    case False
    then show ?thesis by (subst verify_switch.simps) simp
  next
    case True
    show ?thesis
    proof (cases "eth_chainId env attempts")
      case (Inl e)
      with True show ?thesis by (subst verify_switch.simps) simp
    next
      case (Inr c)
      show ?thesis
      proof (cases "c = target")
        case True
        with Inr \<open>attempts < 10\<close> show ?thesis by (subst verify_switch.simps) simp
      next
        case False
        with 1 Inr \<open>attempts < 10\<close>
        have "list_all quiet (fst (verify_switch env target (attempts + 1)))" by simp
        with False Inr \<open>attempts < 10\<close> show ?thesis
          by (subst verify_switch.simps) (auto split: prod.splits)
      qed
    qed
  qed
qed

lemma bridge_catch_tame: "list_all (tame env p a) (bridge_catch env p a r e)"
  by (auto simp: bridge_catch_def tame_def Let_def)

lemma direct_mint_catch_tame: "list_all (tame env p a) (direct_mint_catch env p a h mt e)"
  by (auto simp: direct_mint_catch_def tame_def)

lemma direct_mint_submit_tame:
  "list_all (tame env p a) (direct_mint_submit env p a h m x req)"
  by (auto simp: direct_mint_submit_def Let_def direct_mint_catch_tame tame_def
           split: sum.splits)

lemma direct_mint_tame: "list_all (tame env p a) (direct_mint env p a h m x)"
proof -
  have vs: "list_all (tame env p a) (fst (verify_switch env (chainId_of env arcTestnet) 0))"
    by (rule list_quiet_tame) (rule verify_switch_quiet)
  show ?thesis
    using vs
    by (auto simp: direct_mint_def Let_def direct_mint_catch_tame direct_mint_submit_tame tame_def
             split: sum.splits option.splits prod.splits)
qed

lemma direct_after_burn_tame: "list_all (tame env p a) (direct_after_burn env p a h)"
proof -
  have pq: "list_all (tame env p a) (fst (poll_attestation env h 0))"
    by (rule list_quiet_tame) (rule poll_quiet)
  show ?thesis
    using pq
    by (auto simp: direct_after_burn_def direct_mint_tame tame_def updateToast_def
             split: prod.splits option.splits)
qed

lemma onProgress_tame: "list_all (tame env p a) (fst (onProgress pr r))"
  by (auto simp: onProgress_def Let_def tame_def)

lemma run_progress_tame: "list_all (tame env p a) (fst (run_progress prs r))"
proof (induction prs arbitrary: r)
  case Nil
  then show ?case by simp
next
  case (Cons pr prs)
  have "list_all (tame env p a) (fst (onProgress pr r))" by (rule onProgress_tame)
  moreover have "list_all (tame env p a) (fst (run_progress prs (snd (onProgress pr r))))"
    by (rule Cons.IH)
  ultimately show ?case by (auto split: prod.splits)
qed

lemma sdk_burn_only_tame: "list_all (tame env p a) (sdk_burn_only env p a r bs)"
  by (auto simp: sdk_burn_only_def Let_def tame_def)

lemma sdk_unclear_tame: "list_all (tame env p a) (sdk_unclear env p a r res)"
  by (auto simp: sdk_unclear_def sdk_cancelled_def Let_def tame_def split: option.splits)

lemma sdk_analyse_tame: "list_all (tame env p a) (sdk_analyse env p a r res)"
  by (auto simp: sdk_analyse_def Let_def sdk_burn_only_tame sdk_unclear_tame tame_def)

lemma bridge_sdk_tame: "list_all (tame env p a) (bridge_sdk env p a)"
proof -
  have rp: "list_all (tame env p a) (fst (run_progress (sdk_progress env) refs0))"
    by (rule run_progress_tame)
  show ?thesis
    using rp
    by (auto simp: bridge_sdk_def bridge_catch_tame sdk_analyse_tame tame_def
             split: prod.splits sum.splits)
qed

lemma tame_no_receipt: "list_all (tame env p a) effs \<Longrightarrow> Ext (BurnReceipt h ok) \<notin> set effs"
  by (auto simp: list_all_iff tame_def)

lemma confirmed_run_Cons:
  "quiet e \<Longrightarrow> confirmed_run env p a h effs \<Longrightarrow> confirmed_run env p a h (e # effs)"
proof -
  assume q: "quiet e" and c: "confirmed_run env p a h effs"
  from c obtain pre where pre: "list_all quiet pre"
    and eq: "effs = pre @ Ext (BurnReceipt h True) # direct_after_burn env p a h"
    by (auto simp: confirmed_run_def)
  have "list_all quiet (e # pre)" using q pre by simp
  moreover have "e # effs = (e # pre) @ Ext (BurnReceipt h True) # direct_after_burn env p a h"
    using eq by simp
  ultimately show ?thesis unfolding confirmed_run_def by blast
qed

lemma direct_burn_confirmed:
  assumes mem: "Ext (BurnReceipt h True) \<in> set (direct_burn env p a amountWei)"
  shows "confirmed_run env p a h (direct_burn env p a amountWei)"
proof (cases "sendBurn env amountWei (maxFee amountWei)")
  case (Inl e)
  with mem tame_no_receipt [OF bridge_catch_tame] show ?thesis
    by (auto simp: direct_burn_def)
next
  case (Inr burnHash)
  show ?thesis
  proof (cases "waitBurn env burnHash")
    case (Inl e)
    with Inr mem tame_no_receipt [OF bridge_catch_tame] show ?thesis
      by (auto simp: direct_burn_def Let_def)
  next
    case ok: (Inr ok)
    show ?thesis
    proof (cases ok)
      case False
      with ok Inr mem tame_no_receipt [OF bridge_catch_tame] show ?thesis
        by (auto simp: direct_burn_def Let_def)
    next
      case True
      with ok Inr mem tame_no_receipt [OF direct_after_burn_tame] have h: "burnHash = h"
        by (auto simp: direct_burn_def Let_def)
      have "direct_burn env p a amountWei =
              [Toast info ''Bridging to Arc...'', Ext (BurnTx amountWei (maxFee amountWei)),
               Ext (BurnSubmitted h)] @ Ext (BurnReceipt h True) # direct_after_burn env p a h"
        using True ok Inr h by (simp add: direct_burn_def Let_def)
      moreover have "list_all quiet [Toast info ''Bridging to Arc...'',
          Ext (BurnTx amountWei (maxFee amountWei)), Ext (BurnSubmitted h)]"
        by simp
      ultimately show ?thesis unfolding confirmed_run_def by blast
    qed
  qed
qed

lemma bridge_direct_confirmed:
  assumes mem: "Ext (BurnReceipt h True) \<in> set (bridge_direct env p a)"
  shows "confirmed_run env p a h (bridge_direct env p a)"
  using mem tame_no_receipt [OF bridge_catch_tame]
  by (auto simp: bridge_direct_def intro!: confirmed_run_Cons direct_burn_confirmed
           split: if_splits sum.splits option.splits)

lemma bridge_try_confirmed:
  assumes mem: "Ext (BurnReceipt h True) \<in> set (bridge_try env p a)"
  shows "confirmed_run env p a h (bridge_try env p a)"
  using mem tame_no_receipt [OF bridge_catch_tame] tame_no_receipt [OF bridge_sdk_tame]
  by (auto simp: bridge_try_def intro!: confirmed_run_Cons bridge_direct_confirmed
           split: if_splits option.splits)

lemma bridge_confirmed:
  assumes mem: "Ext (BurnReceipt h True) \<in> set (bridge env p)"
  shows "bridge_accepts env p \<and>
         (\<exists>rest. bridge env p =
            [Persist (opt_string (account_address env)) None, SetState (\<lambda>prev. bridging_state),
             SetAttestationStatus None] @ rest \<and>
            confirmed_run env p (opt_string (account_address env)) h rest)"
  using mem
  by (auto simp: bridge_def bridge_accepts_def Let_def
           intro!: confirmed_run_Cons bridge_try_confirmed
           split: if_splits option.splits)

lemma quiet_run_storage: "list_all quiet effs \<Longrightarrow> storage (run effs w) = storage w"
  by (simp add: quiet_run)

lemma quiet_run_ui: "list_all quiet effs \<Longrightarrow> ui (run effs w) = ui w"
  by (simp add: quiet_run)

lemma quiet_run_status:
  "list_all quiet effs \<Longrightarrow> attestationStatus (run effs w) = attestationStatus w"
  by (simp add: quiet_run)

lemma quiet_no_mint: "list_all quiet effs \<Longrightarrow> Ext (MintTx n m x) \<notin> set effs"
  by (auto simp: list_all_iff)

lemma quiet_no_error_toast: "list_all quiet effs \<Longrightarrow> Toast toast_error t \<notin> set effs"
  by (auto simp: list_all_iff)

lemma accepts_address: "bridge_accepts env p \<Longrightarrow> opt_string (account_address env) \<noteq> []"
  by (cases "account_address env") (auto simp: bridge_accepts_def opt_string_def)

lemma direct_after_burn_timeout:
  assumes never: "\<forall>i. 1 \<le> i \<and> i \<le> MAX_ATTEMPTS \<longrightarrow> poll_once env h i = None"
      and a: "a \<noteq> []"
  shows "\<exists>polls. list_all quiet polls \<and>
           direct_after_burn env p a h =
             [Ext (TrackSiteBridge (Some h)), SetAttestationStatus (Some st_pending), updateToast 0] @
             polls @
             [Toast dismiss [], Toast warning ''Attestation taking longer than expected'',
              Persist a (Some (newPendingBurn env p (Some h))),
              SetAttestationStatus (Some st_pending_mint),
              SetState (\<lambda>prev. prev\<lparr>isBridging := False,
                                     pendingBurn := Some (newPendingBurn env p (Some h))\<rparr>)]"
proof -
  obtain polls m x where pa: "poll_attestation env h 0 = (polls, m, x)"
    by (cases "poll_attestation env h 0") auto
  from never have "\<forall>i. 0 < i \<and> i \<le> MAX_ATTEMPTS \<longrightarrow> poll_once env h i = None"
    by (simp add: Suc_le_eq)
  then have "snd (poll_attestation env h 0) = (None, None)"
    by (rule poll_timeout)
  with pa have mx: "m = None" "x = None" by simp_all
  from poll_quiet [of env h 0] pa have q: "list_all quiet polls" by simp
  have "direct_after_burn env p a h =
             [Ext (TrackSiteBridge (Some h)), SetAttestationStatus (Some st_pending), updateToast 0] @
             polls @
             [Toast dismiss [], Toast warning ''Attestation taking longer than expected'',
              Persist a (Some (newPendingBurn env p (Some h))),
              SetAttestationStatus (Some st_pending_mint),
              SetState (\<lambda>prev. prev\<lparr>isBridging := False,
                                     pendingBurn := Some (newPendingBurn env p (Some h))\<rparr>)]"
    using pa mx a by (simp add: direct_after_burn_def)
  with q show ?thesis by blast
qed

text \<open>The whole run of a transfer whose burn confirmed and whose attestation never came.\<close>

lemma timeout_run:
  assumes confirmed: "Ext (BurnReceipt h True) \<in> set (bridge env p)"
      and never: "\<forall>i. 1 \<le> i \<and> i \<le> MAX_ATTEMPTS \<longrightarrow> poll_once env h i = None"
  shows "\<exists>pre polls. list_all quiet pre \<and> list_all quiet polls \<and>
           bridge env p =
             [Persist (opt_string (account_address env)) None, SetState (\<lambda>prev. bridging_state),
              SetAttestationStatus None] @
             pre @
             [Ext (BurnReceipt h True), Ext (TrackSiteBridge (Some h)),
              SetAttestationStatus (Some st_pending), updateToast 0] @
             polls @
             [Toast dismiss [], Toast warning ''Attestation taking longer than expected'',
              Persist (opt_string (account_address env)) (Some (newPendingBurn env p (Some h))),
              SetAttestationStatus (Some st_pending_mint),
              SetState (\<lambda>prev. prev\<lparr>isBridging := False,
                                     pendingBurn := Some (newPendingBurn env p (Some h))\<rparr>)]"
proof -
  let ?a = "opt_string (account_address env)"
  from bridge_confirmed [OF confirmed] obtain rest where
    acc: "bridge_accepts env p" and
    eq: "bridge env p = [Persist ?a None, SetState (\<lambda>prev. bridging_state),
                         SetAttestationStatus None] @ rest" and
    cr: "confirmed_run env p ?a h rest"
    by blast
  from cr obtain pre where pre: "list_all quiet pre"
    and rest: "rest = pre @ Ext (BurnReceipt h True) # direct_after_burn env p ?a h"
    by (auto simp: confirmed_run_def)
  from direct_after_burn_timeout [OF never accepts_address [OF acc]]
  obtain polls where polls: "list_all quiet polls" and
    dab: "direct_after_burn env p ?a h =
             [Ext (TrackSiteBridge (Some h)), SetAttestationStatus (Some st_pending), updateToast 0] @
             polls @
             [Toast dismiss [], Toast warning ''Attestation taking longer than expected'',
              Persist ?a (Some (newPendingBurn env p (Some h))),
              SetAttestationStatus (Some st_pending_mint),
              SetState (\<lambda>prev. prev\<lparr>isBridging := False,
                                     pendingBurn := Some (newPendingBurn env p (Some h))\<rparr>)]"
    by blast
  from eq rest dab pre polls show ?thesis by auto
qed

lemma no_write_run: "list_all (\<lambda>e. \<not> writes_store e) effs \<Longrightarrow> storage (run effs w) = storage w"
proof (induction effs arbitrary: w)
  case Nil
  then show ?case by simp
next
  case (Cons e effs)
  then show ?case by (cases e) auto
qed

lemma quiet_no_write: "list_all quiet effs \<Longrightarrow> list_all (\<lambda>e. \<not> writes_store e) effs"
proof (induction effs)
  case Nil
  then show ?case by simp
next
  case (Cons e effs)
  then show ?case by (cases e) auto
qed

lemma list_all_take: "list_all P xs \<Longrightarrow> list_all P (take k xs)"
  by (auto simp: list_all_iff dest: in_set_takeD)

lemma direct_burn_own: "list_all (own_write env p a) (direct_burn env p a amountWei)"
  using list_tame_own [OF bridge_catch_tame] list_tame_own [OF direct_after_burn_tame]
  by (auto simp: direct_burn_def Let_def split: sum.splits)

lemma bridge_direct_own: "list_all (own_write env p a) (bridge_direct env p a)"
  using list_tame_own [OF bridge_catch_tame] direct_burn_own
  by (auto simp: bridge_direct_def split: sum.splits option.splits)

lemma bridge_try_own: "list_all (own_write env p a) (bridge_try env p a)"
  using list_tame_own [OF bridge_catch_tame] list_tame_own [OF bridge_sdk_tame] bridge_direct_own
  by (auto simp: bridge_try_def split: option.splits)

lemma bridge_own: "list_all (own_write env p (opt_string (account_address env))) (bridge env p)"
  using bridge_try_own
  by (auto simp: bridge_def Let_def split: option.splits)

lemma own_writes_result:
  assumes "list_all (own_write env p a) effs"
      and "loadPendingBurn a (storage w) = None \<or>
           (\<exists>h. loadPendingBurn a (storage w) = Some (newPendingBurn env p h))"
  shows "loadPendingBurn a (storage (run effs w)) = None \<or>
         (\<exists>h. loadPendingBurn a (storage (run effs w)) = Some (newPendingBurn env p h))"
  using assms
proof (induction effs arbitrary: w)
  case Nil
  then show ?case by simp
next
  case (Cons e effs)
  from Cons.prems have e: "own_write env p a e" and rest: "list_all (own_write env p a) effs"
    by simp_all
  have "loadPendingBurn a (storage (apply_effect e w)) = None \<or>
        (\<exists>h. loadPendingBurn a (storage (apply_effect e w)) = Some (newPendingBurn env p h))"
  proof (cases e)
    case (Persist a' pb)
    with e show ?thesis by (auto simp: load_save_None load_save_Some)
  next
    case (SetAttestationStatus s)
    with Cons.prems(2) show ?thesis by simp
  next
    case (SetState f)
    with Cons.prems(2) show ?thesis by simp
  next
    case (Toast k t)
    with Cons.prems(2) show ?thesis by simp
  next
    case (Ext x)
    with Cons.prems(2) show ?thesis by simp
  qed
  from Cons.IH [OF rest this] show ?case by simp
qed

lemma bridge_starts:
  assumes "bridge_accepts env p"
  shows "\<exists>rest. bridge env p =
           Persist (opt_string (account_address env)) None # SetState (\<lambda>prev. bridging_state) #
           SetAttestationStatus None # rest"
  using assms by (auto simp: bridge_def bridge_accepts_def Let_def)

lemma find_message_quiet: "list_all quiet (fst (find_message env h ds))"
proof (induction ds)
  case Nil
  then show ?case by simp
next
  case (Cons d ds)
  obtain domain x where d: "d = (domain, x)" by (cases d)
  from Cons show ?case
    by (auto simp: d split: option.splits prod.splits)
qed

lemma claim_switch_quiet: "list_all quiet (fst (claim_switch env d))"
  using verify_switch_quiet [of env "chainId_of env d" 0]
  by (auto simp: claim_switch_def Let_def split: option.splits prod.splits)

lemma quiet_not_mint_call: "list_all quiet effs \<Longrightarrow> filter is_mint_call effs = []"
proof (induction effs)
  case Nil
  then show ?case by simp
next
  case (Cons e effs)
  then show ?case by (cases e) (auto split: ext.splits)
qed

lemma quiet_no_submitted: "list_all quiet effs \<Longrightarrow> Ext (MintSubmitted h) \<notin> set effs"
  by (auto simp: list_all_iff)

lemma claim_catch_no_mint: "Ext (MintTx n m x) \<notin> set (claim_catch a e)"
  by (simp add: claim_catch_def)

lemma claim_submit_form:
  assumes "Ext (MintTx n m x) \<in> set (fst (claim_submit env a d mb at req))"
      and "receiveMessage env n m x = Inl e"
  shows "claim_submit env a d mb at req =
           ([Toast info ''Claiming your USDC...'', Ext EthChainId, Ext (MintTx n m x)], Some e)"
  using assms
  by (auto simp: claim_submit_def Let_def split: sum.splits if_splits)

text \<open>The whole run of a claim that reaches \<open>receiveMessage\<close> and gets an error back.\<close>

lemma claim_reaches_mint:
  assumes reach: "Ext (MintTx n m x) \<in> set (claimPendingBridge env st)"
      and thrown: "receiveMessage env n m x = Inl e"
  shows "\<exists>effs. list_all quiet effs \<and>
           claimPendingBridge env st =
             SetState (\<lambda>prev. prev\<lparr>isClaiming := True, error := None\<rparr>) # effs @
             Ext (MintTx n m x) # claim_catch (opt_string (account_address env)) e"
proof -
  let ?a = "opt_string (account_address env)"
  from reach obtain pb where pb: "pendingBurn st = Some pb"
    by (cases "pendingBurn st") (auto simp: claimPendingBridge_def)
  from reach pb have guard: "\<not> (\<not> walletClient env \<or> \<not> truthy (account_address env))"
    by (auto simp: claimPendingBridge_def split: if_splits)
  obtain effs1 found where fm: "find_message env (url_hash (txHash pb)) (claim_domains env pb) = (effs1, found)"
    by (cases "find_message env (url_hash (txHash pb)) (claim_domains env pb)")
  from find_message_quiet [of env "url_hash (txHash pb)" "claim_domains env pb"] fm
  have q1: "list_all quiet effs1" by simp
  obtain te tr where ct: "claim_try env ?a pb = (te, tr)"
    by (cases "claim_try env ?a pb")
  from reach pb guard ct
  have "Ext (MintTx n m x) \<in> set te \<or> (\<exists>e'. Ext (MintTx n m x) \<in> set (claim_catch ?a e'))"
    by (cases tr) (auto simp: claimPendingBridge_def)
  then have "Ext (MintTx n m x) \<in> set te"
    by (simp add: claim_catch_no_mint)
  with ct have in_try: "Ext (MintTx n m x) \<in> set (fst (claim_try env ?a pb))"
    by simp
  from in_try fm quiet_no_mint [OF q1] obtain messageData destNetwork where
    found: "found = Some (messageData, destNetwork)"
    by (cases found) (auto simp: claim_try_def)
  from in_try fm found quiet_no_mint [OF q1]
  have ok: "\<not> (\<not> truthy (msg_attestation messageData) \<or> msg_attestation messageData = Some ''PENDING'')"
           "truthy (msg_message messageData)"
    by (auto simp: claim_try_def split: if_splits)
  obtain effs2 sw where cs: "claim_switch env destNetwork = (effs2, sw)"
    by (cases "claim_switch env destNetwork")
  from claim_switch_quiet [of env destNetwork] cs have q2: "list_all quiet effs2" by simp
  from in_try fm found ok cs quiet_no_mint [OF q1] quiet_no_mint [OF q2] obtain req where
    sw: "sw = Inr req"
    by (cases sw) (auto simp: claim_try_def)
  let ?sub = "claim_submit env ?a destNetwork (opt_string (msg_message messageData))
                (opt_string (msg_attestation messageData)) req"
  from in_try fm found ok cs sw quiet_no_mint [OF q1] quiet_no_mint [OF q2]
  have "Ext (MintTx n m x) \<in> set (fst ?sub)"
    by (auto simp: claim_try_def split: prod.splits)
  from claim_submit_form [OF this thrown]
  have sub: "?sub = ([Toast info ''Claiming your USDC...'', Ext EthChainId, Ext (MintTx n m x)], Some e)" .
  have "claimPendingBridge env st =
          SetState (\<lambda>prev. prev\<lparr>isClaiming := True, error := None\<rparr>) #
          (Toast info ''Fetching attestation from Circle...'' # effs1 @ effs2 @
           [Toast info ''Claiming your USDC...'', Ext EthChainId]) @
          Ext (MintTx n m x) # claim_catch ?a e"
    using pb guard fm found ok cs sw sub
    by (simp add: claimPendingBridge_def claim_try_def)
  moreover have "list_all quiet (Toast info ''Fetching attestation from Circle...'' # effs1 @ effs2 @
           [Toast info ''Claiming your USDC...'', Ext EthChainId])"
    using q1 q2 by simp
  ultimately show ?thesis by blast
qed

lemma claim_submit_thrown:
  "claim_submit env a d mb at req = (effs, Some e) \<Longrightarrow> list_all (\<lambda>e. \<not> writes_store e) effs"
  by (auto simp: claim_submit_def Let_def split: sum.splits if_splits)

lemma claim_submit_done:
  assumes "claim_submit env a d mb at req = (effs, None)"
      and "\<forall>n. publicClient env n"
      and "\<forall>n h. waitMint env n h \<noteq> Inr False"
  shows "\<exists>h. Ext (MintReceipt h True) \<in> set effs"
proof -
  have good: "ok" if "waitMint env n h = Inr ok" for n h ok
    using that assms(3) by (cases ok) auto
  from assms(1,2) show ?thesis
    by (auto simp: claim_submit_def Let_def split: sum.splits if_splits dest: good)
qed

lemma claim_try_thrown:
  assumes "claim_try env a pb = (effs, Some e)"
  shows "list_all (\<lambda>e. \<not> writes_store e) effs"
proof -
  obtain effs1 found where fm: "find_message env (url_hash (txHash pb)) (claim_domains env pb) = (effs1, found)"
    by (cases "find_message env (url_hash (txHash pb)) (claim_domains env pb)")
  from find_message_quiet [of env "url_hash (txHash pb)" "claim_domains env pb"] fm
  have q1: "list_all (\<lambda>e. \<not> writes_store e) effs1" by (simp add: quiet_no_write)
  show ?thesis
  proof (cases found)
    case None
    with assms fm q1 show ?thesis by (auto simp: claim_try_def)
  next
    case (Some md)
    obtain messageData destNetwork where md: "md = (messageData, destNetwork)" by (cases md)
    obtain effs2 sw where cs: "claim_switch env destNetwork = (effs2, sw)"
      by (cases "claim_switch env destNetwork")
    from claim_switch_quiet [of env destNetwork] cs
    have q2: "list_all (\<lambda>e. \<not> writes_store e) effs2" by (simp add: quiet_no_write)
    obtain effs3 tr where sub: "claim_submit env a destNetwork (opt_string (msg_message messageData))
                (opt_string (msg_attestation messageData)) (case sw of Inr req \<Rightarrow> req | Inl e \<Rightarrow> 0) = (effs3, tr)"
      by (cases "claim_submit env a destNetwork (opt_string (msg_message messageData))
                (opt_string (msg_attestation messageData)) (case sw of Inr req \<Rightarrow> req | Inl e \<Rightarrow> 0)")
    from assms fm Some md cs sub q1 q2 show ?thesis
      by (cases sw) (auto simp: claim_try_def dest: claim_submit_thrown split: if_splits)
  qed
qed

lemma claim_try_done:
  assumes fin: "claim_try env a pb = (effs, None)"
      and clients: "\<forall>n. publicClient env n"
      and receipts: "\<forall>n h. waitMint env n h \<noteq> Inr False"
  shows "\<exists>h. Ext (MintReceipt h True) \<in> set effs"
proof -
  obtain effs1 found where fm: "find_message env (url_hash (txHash pb)) (claim_domains env pb) = (effs1, found)"
    by (cases "find_message env (url_hash (txHash pb)) (claim_domains env pb)")
  from fin fm obtain messageData destNetwork where found: "found = Some (messageData, destNetwork)"
    by (cases found) (auto simp: claim_try_def)
  obtain effs2 sw where cs: "claim_switch env destNetwork = (effs2, sw)"
    by (cases "claim_switch env destNetwork")
  from fin fm found cs obtain req where sw: "sw = Inr req"
    by (cases sw) (auto simp: claim_try_def split: if_splits)
  obtain effs3 tr where sub: "claim_submit env a destNetwork (opt_string (msg_message messageData))
                (opt_string (msg_attestation messageData)) req = (effs3, tr)"
    by (cases "claim_submit env a destNetwork (opt_string (msg_message messageData))
                (opt_string (msg_attestation messageData)) req")
  from fin fm found cs sw sub have tr: "tr = None" and effs:
    "effs = Toast info ''Fetching attestation from Circle...'' # effs1 @ effs2 @ effs3"
    by (auto simp: claim_try_def split: if_splits)
  from claim_submit_done [OF sub [unfolded tr] clients receipts] effs show ?thesis
    by auto
qed

lemma claim_deletes_only:
  assumes clients: "\<forall>n. publicClient env n"
      and receipts: "\<forall>n h. waitMint env n h \<noteq> Inr False"
      and had: "loadPendingBurn (opt_string (account_address env)) (storage w) \<noteq> None"
      and gone: "loadPendingBurn (opt_string (account_address env))
                   (storage (run (claimPendingBridge env st) w)) = None"
  shows "(\<exists>h. Ext (MintReceipt h True) \<in> set (claimPendingBridge env st)) \<or>
         (\<exists>pb effs e. pendingBurn st = Some pb \<and>
            claim_try env (opt_string (account_address env)) pb = (effs, Some e) \<and>
            already_claimed (claim_errorMsg e))"
proof -
  let ?a = "opt_string (account_address env)"
  from had gone obtain pb where pb: "pendingBurn st = Some pb"
    by (cases "pendingBurn st") (auto simp: claimPendingBridge_def)
  from had gone pb have guard: "\<not> (\<not> walletClient env \<or> \<not> truthy (account_address env))"
    by (auto simp: claimPendingBridge_def split: if_splits)
  obtain effs tr where ct: "claim_try env ?a pb = (effs, tr)"
    by (cases "claim_try env ?a pb")
  show ?thesis
  proof (cases tr)
    case None
    from claim_try_done [OF ct [unfolded None] clients receipts] obtain h where
      "Ext (MintReceipt h True) \<in> set effs" by blast
    with pb guard ct None have "Ext (MintReceipt h True) \<in> set (claimPendingBridge env st)"
      by (simp add: claimPendingBridge_def)
    then show ?thesis by blast
  next
    case (Some e)
    show ?thesis
    proof (cases "already_claimed (claim_errorMsg e)")
      case True
      with pb ct Some show ?thesis by blast
    next
      case False
      from claim_try_thrown [OF ct [unfolded Some]]
      have "storage (run effs w') = storage w'" for w'
        by (rule no_write_run)
      with pb guard ct Some False
      have "storage (run (claimPendingBridge env st) w) = storage w"
        by (simp add: claimPendingBridge_def claim_catch_def)
      with had gone show ?thesis by simp
    qed
  qed
qed

lemma claim_submit_submitted:
  "claim_submit env a d mb at req = (effs, None) \<Longrightarrow> \<exists>h. Ext (MintSubmitted h) \<in> set effs"
  by (auto simp: claim_submit_def Let_def split: sum.splits if_splits)

lemma claim_submit_clears:
  "claim_submit env a d mb at req = (effs, None) \<Longrightarrow> a \<noteq> [] \<Longrightarrow>
   loadPendingBurn a (storage (run effs w)) = None"
  by (auto simp: claim_submit_def Let_def load_save_None split: sum.splits if_splits)

text \<open>A \<open>try\<close> block of the claim that ran to its end.\<close>

lemma claim_try_finished:
  assumes fin: "claim_try env a pb = (effs, None)"
  shows "(\<exists>h. Ext (MintSubmitted h) \<in> set effs) \<and>
         (a \<noteq> [] \<longrightarrow> loadPendingBurn a (storage (run effs w)) = None)"
proof -
  obtain effs1 found where fm: "find_message env (url_hash (txHash pb)) (claim_domains env pb) = (effs1, found)"
    by (cases "find_message env (url_hash (txHash pb)) (claim_domains env pb)")
  from fin fm obtain messageData destNetwork where found: "found = Some (messageData, destNetwork)"
    by (cases found) (auto simp: claim_try_def)
  obtain effs2 sw where cs: "claim_switch env destNetwork = (effs2, sw)"
    by (cases "claim_switch env destNetwork")
  from fin fm found cs obtain req where sw: "sw = Inr req"
    by (cases sw) (auto simp: claim_try_def split: if_splits)
  obtain effs3 tr where sub: "claim_submit env a destNetwork (opt_string (msg_message messageData))
                (opt_string (msg_attestation messageData)) req = (effs3, tr)"
    by (cases "claim_submit env a destNetwork (opt_string (msg_message messageData))
                (opt_string (msg_attestation messageData)) req")
  from fin fm found cs sw sub have tr: "tr = None" and effs:
    "effs = (Toast info ''Fetching attestation from Circle...'' # effs1 @ effs2) @ effs3"
    by (auto simp: claim_try_def split: if_splits)
  from claim_submit_submitted [OF sub [unfolded tr]] effs
  have submitted: "\<exists>h. Ext (MintSubmitted h) \<in> set effs" by auto
  have "loadPendingBurn a (storage (run effs w)) = None" if a: "a \<noteq> []"
    unfolding effs run_append by (rule claim_submit_clears [OF sub [unfolded tr] a])
  with submitted show ?thesis by blast
qed

lemma claim_changes_only:
  assumes changed: "loadPendingBurn (opt_string (account_address env))
                      (storage (run (claimPendingBridge env st) w)) \<noteq>
                    loadPendingBurn (opt_string (account_address env)) (storage w)"
  shows "loadPendingBurn (opt_string (account_address env))
           (storage (run (claimPendingBridge env st) w)) = None \<and>
         ((\<exists>pb effs h. pendingBurn st = Some pb \<and>
             claim_try env (opt_string (account_address env)) pb = (effs, None) \<and>
             Ext (MintSubmitted h) \<in> set effs) \<or>
          (\<exists>pb effs e. pendingBurn st = Some pb \<and>
             claim_try env (opt_string (account_address env)) pb = (effs, Some e) \<and>
             already_claimed (claim_errorMsg e)))"
proof -
  let ?a = "opt_string (account_address env)"
  from changed obtain pb where pb: "pendingBurn st = Some pb"
    by (cases "pendingBurn st") (auto simp: claimPendingBridge_def)
  from changed pb have guard: "\<not> (\<not> walletClient env \<or> \<not> truthy (account_address env))"
    by (auto simp: claimPendingBridge_def split: if_splits)
  then have a: "?a \<noteq> []"
    by (cases "account_address env") (simp_all add: opt_string_def)
  obtain effs tr where ct: "claim_try env ?a pb = (effs, tr)"
    by (cases "claim_try env ?a pb")
  show ?thesis
  proof (cases tr)
    case None
    from claim_try_finished [OF ct [unfolded None]] a obtain h where
      h: "Ext (MintSubmitted h) \<in> set effs" and
      gone: "\<And>w'. loadPendingBurn ?a (storage (run effs w')) = None"
      by blast
    from pb guard ct None gone
    have "loadPendingBurn ?a (storage (run (claimPendingBridge env st) w)) = None"
      by (simp add: claimPendingBridge_def)
    with pb ct None h show ?thesis by blast
  next
    case (Some e)
    show ?thesis
    proof (cases "already_claimed (claim_errorMsg e)")
      case True
      with pb guard ct Some a
      have "loadPendingBurn ?a (storage (run (claimPendingBridge env st) w)) = None"
        by (simp add: claimPendingBridge_def claim_catch_def load_save_None)
      with pb ct Some True show ?thesis by blast
    next
      case False
      from claim_try_thrown [OF ct [unfolded Some]]
      have "storage (run effs w') = storage w'" for w'
        by (rule no_write_run)
      with pb guard ct Some False
      have "storage (run (claimPendingBridge env st) w) = storage w"
        by (simp add: claimPendingBridge_def claim_catch_def)
      with changed show ?thesis by simp
    qed
  qed
qed

lemma claim_confirmed_only:
  assumes clients: "\<forall>n. publicClient env n"
      and receipts: "\<forall>n h. waitMint env n h \<noteq> Inr False"
      and changed: "loadPendingBurn (opt_string (account_address env))
                      (storage (run (claimPendingBridge env st) w)) \<noteq>
                    loadPendingBurn (opt_string (account_address env)) (storage w)"
  shows "(\<exists>h. Ext (MintReceipt h True) \<in> set (claimPendingBridge env st)) \<or>
         (\<exists>pb effs e. pendingBurn st = Some pb \<and>
            claim_try env (opt_string (account_address env)) pb = (effs, Some e) \<and>
            already_claimed (claim_errorMsg e))"
proof -
  from claim_changes_only [OF changed]
  have gone: "loadPendingBurn (opt_string (account_address env))
                (storage (run (claimPendingBridge env st) w)) = None"
    by blast
  with changed have had: "loadPendingBurn (opt_string (account_address env)) (storage w) \<noteq> None"
    by auto
  from claim_deletes_only [OF clients receipts had gone] show ?thesis .
qed

lemma reconcile_changes_only:
  assumes changed: "loadPendingBurn (opt_string (account_address env))
                      (storage (run (onWalletConnect env (storage w)) w)) \<noteq>
                    loadPendingBurn (opt_string (account_address env)) (storage w)"
  shows "\<exists>r ok msgs.
           loadPendingBurn (opt_string (account_address env)) (storage w) = Some r \<and>
           fetchAttestation env (domain_of env (fromNetwork r)) (url_hash (txHash r)) 0 =
             Response ok (Json msgs) \<and>
           ((first_message msgs = None \<and>
             loadPendingBurn (opt_string (account_address env))
               (storage (run (onWalletConnect env (storage w)) w)) = None) \<or>
            (first_message msgs \<noteq> None \<and>
             (\<exists>amt. loadPendingBurn (opt_string (account_address env))
                      (storage (run (onWalletConnect env (storage w)) w)) =
                    Some (r\<lparr>amount := amt\<rparr>))))"
proof -
  let ?a = "opt_string (account_address env)"
  from changed have addr: "truthy (account_address env)"
    by (auto simp: onWalletConnect_def split: if_splits)
  from changed addr obtain r where r: "loadPendingBurn ?a (storage w) = Some r"
    by (cases "loadPendingBurn ?a (storage w)") (auto simp: onWalletConnect_def)
  show ?thesis
  proof (cases "fetchAttestation env (domain_of env (fromNetwork r)) (url_hash (txHash r)) 0")
    case FetchThrows
    with r addr have "storage (run (onWalletConnect env (storage w)) w) = storage w"
      by (simp add: onWalletConnect_def verifyAndLoad_def Let_def)
    with changed show ?thesis by simp
  next
    case (Response ok body)
    show ?thesis
    proof (cases body)
      case JsonThrows
      with Response r addr have "storage (run (onWalletConnect env (storage w)) w) = storage w"
        by (simp add: onWalletConnect_def verifyAndLoad_def Let_def)
      with changed show ?thesis by simp
    next
      case (Json msgs)
      show ?thesis
      proof (cases "first_message msgs")
        case None
        with Json Response r addr
        have "loadPendingBurn ?a (storage (run (onWalletConnect env (storage w)) w)) = None"
          by (simp add: onWalletConnect_def verifyAndLoad_def Let_def load_save_None)
        with None Json Response r show ?thesis by blast
      next
        case (Some m)
        have same: "\<exists>amt. r = r\<lparr>amount := amt\<rparr>"
          by (rule exI [of _ "amount r"]) simp
        have upd: "\<exists>amt. r\<lparr>amount := x\<rparr> = r\<lparr>amount := amt\<rparr>" for x
          by blast
        from Some Json Response r addr
        have "\<exists>amt. loadPendingBurn ?a (storage (run (onWalletConnect env (storage w)) w)) =
                Some (r\<lparr>amount := amt\<rparr>)"
          by (simp add: onWalletConnect_def verifyAndLoad_def Let_def load_save_Some same upd)
        with Some Json Response r show ?thesis by auto
      qed
    qed
  qed
qed

lemma restore_failed_keeps:
  "\<not> res_success (snd (restorePendingBurn env h)) \<Longrightarrow>
   storage (run (fst (restorePendingBurn env h)) w) = storage w"
proof -
  assume failed: "\<not> res_success (snd (restorePendingBurn env h))"
  obtain effs found where fm: "find_message env h (restore_domains env) = (effs, found)"
    by (cases "find_message env h (restore_domains env)")
  from find_message_quiet [of env h "restore_domains env"] fm
  have "list_all quiet effs" by simp
  then have q: "storage (run effs w) = storage w"
    by (rule quiet_run_storage)
  from failed fm q show ?thesis
    by (auto simp: restorePendingBurn_def Let_def split: option.splits if_splits)
qed

lemma restore_changes_only:
  assumes changed: "loadPendingBurn (opt_string (account_address env))
                      (storage (run (fst (restorePendingBurn env h)) w)) \<noteq>
                    loadPendingBurn (opt_string (account_address env)) (storage w)"
  shows "res_success (snd (restorePendingBurn env h)) \<and>
         (\<exists>r'. loadPendingBurn (opt_string (account_address env))
                 (storage (run (fst (restorePendingBurn env h)) w)) = Some r' \<and>
               txHash r' = Some h)"
proof -
  have ok: "res_success (snd (restorePendingBurn env h))"
  proof (rule ccontr)
    assume "\<not> res_success (snd (restorePendingBurn env h))"
    from restore_failed_keeps [OF this] changed show False by simp
  qed
  obtain effs found where fm: "find_message env h (restore_domains env) = (effs, found)"
    by (cases "find_message env h (restore_domains env)")
  from find_message_quiet [of env h "restore_domains env"] fm
  have "list_all quiet effs" by simp
  then have q: "storage (run effs w) = storage w"
    by (rule quiet_run_storage)
  from changed ok fm q
  have "\<exists>r'. loadPendingBurn (opt_string (account_address env))
                 (storage (run (fst (restorePendingBurn env h)) w)) = Some r' \<and>
               txHash r' = Some h"
    by (auto simp: restorePendingBurn_def Let_def load_save_Some split: option.splits if_splits)
  with ok show ?thesis by blast
qed

lemma bridge_rejected_keeps:
  "\<not> bridge_accepts env p \<Longrightarrow> storage (run (bridge env p) w) = storage w"
  by (auto simp: bridge_def bridge_accepts_def)

lemma confirmed_is_direct:
  assumes "Ext (BurnReceipt h ok) \<in> set (bridge env p)"
  shows "p_fromNetwork p = ethereumSepolia \<and> p_toNetwork p = arcTestnet"
proof (rule ccontr)
  assume other: "\<not> (p_fromNetwork p = ethereumSepolia \<and> p_toNetwork p = arcTestnet)"
  have "Ext (BurnReceipt h ok) \<notin> set (bridge_try env p a)" for a
    using other tame_no_receipt [OF bridge_catch_tame] tame_no_receipt [OF bridge_sdk_tame]
    by (auto simp: bridge_try_def split: option.splits)
  with assms show False
    by (auto simp: bridge_def Let_def split: if_splits option.splits)
qed

section \<open>The claims\<close>

text \<open>
  C1 (no premature persistence), evaluated where the code departs from it: on the
  direct path the burn transaction is sent and its receipt reports failure; the run
  ends with a record for the initiator in the store, carrying the hash of the failed
  burn.
\<close>

theorem C1_reverted_burn_is_persisted:
  "interactions (run (bridge (env0\<lparr>waitBurn := \<lambda>h. Inr False\<rparr>) params0) world0) =
     [CreateAdapter, ReadAllowance, BurnTx 20000000 2000, BurnSubmitted hashA,
      BurnReceipt hashA False] \<and>
   loadPendingBurn addr0
     (storage (run (bridge (env0\<lparr>waitBurn := \<lambda>h. Inr False\<rparr>) params0) world0)) =
     Some \<lparr>txHash = Some hashA, fromNetwork = ethereumSepolia, toNetwork = arcTestnet,
           amount = ''20'', timestamp = 1700000000000\<rparr>"
  by (simp add: bridge_def bridge_try_def bridge_direct_def direct_burn_def bridge_catch_def
        params0_def world0_def refs0_def Error_def outer_errorMsg_def isNetworkError_def
        newPendingBurn_def maxFee_def bigint_div_def feeBps_def MIN_FEE_def opt_string_def
        savePendingBurn_def loadPendingBurn_def Let_def)

theorem C1_reverted_burn_is_persisted_witness:
  "bridge_accepts (env0\<lparr>waitBurn := \<lambda>h. Inr False\<rparr>) params0 \<and>
   waitBurn (env0\<lparr>waitBurn := \<lambda>h. Inr False\<rparr>) hashA = Inr False \<and>
   loadPendingBurn addr0
     (storage (run (bridge (env0\<lparr>waitBurn := \<lambda>h. Inr False\<rparr>) params0) world0)) \<noteq> None"
  using C1_reverted_burn_is_persisted by (simp add: bridge_accepts_def params0_def)

text \<open>
  C2 (durable after confirmation), as the code has it: when the burn \<open>h\<close> was confirmed
  and attestation polling runs out of attempts, the record with \<open>txHash = h\<close> is written
  by the third effect from the end of the call. A run interrupted at or after that write
  leaves the record in the store; a run interrupted earlier, after the initial deletion,
  leaves no record for the initiator, however long after the confirmation.
\<close>

theorem C2_record_written_at_timeout:
  assumes confirmed: "Ext (BurnReceipt h True) \<in> set (bridge env p)"
      and never: "\<forall>i. 1 \<le> i \<and> i \<le> MAX_ATTEMPTS \<longrightarrow> poll_once env h i = None"
  shows "(\<forall>k. length (bridge env p) \<le> k + 2 \<longrightarrow>
            loadPendingBurn (opt_string (account_address env))
              (storage (run (take k (bridge env p)) w)) = Some (newPendingBurn env p (Some h))) \<and>
         (\<forall>k. 1 \<le> k \<and> k + 3 \<le> length (bridge env p) \<longrightarrow>
            loadPendingBurn (opt_string (account_address env))
              (storage (run (take k (bridge env p)) w)) = None) \<and>
         txHash (newPendingBurn env p (Some h)) = Some h"
proof -
  let ?a = "opt_string (account_address env)"
  let ?new = "newPendingBurn env p (Some h)"
  let ?F = "[SetAttestationStatus (Some st_pending_mint),
             SetState (\<lambda>prev. prev\<lparr>isBridging := False, pendingBurn := Some ?new\<rparr>)]"
  from timeout_run [OF confirmed never] obtain pre polls where
    pre: "list_all quiet pre" and polls: "list_all quiet polls" and
    eq: "bridge env p =
             [Persist ?a None, SetState (\<lambda>prev. bridging_state), SetAttestationStatus None] @
             pre @
             [Ext (BurnReceipt h True), Ext (TrackSiteBridge (Some h)),
              SetAttestationStatus (Some st_pending), updateToast 0] @
             polls @
             [Toast dismiss [], Toast warning ''Attestation taking longer than expected'',
              Persist ?a (Some ?new),
              SetAttestationStatus (Some st_pending_mint),
              SetState (\<lambda>prev. prev\<lparr>isBridging := False, pendingBurn := Some ?new\<rparr>)]"
    by blast
  define B where "B = [SetState (\<lambda>prev. bridging_state), SetAttestationStatus None] @ pre @
             [Ext (BurnReceipt h True), Ext (TrackSiteBridge (Some h)),
              SetAttestationStatus (Some st_pending), updateToast 0] @
             polls @
             [Toast dismiss [], Toast warning ''Attestation taking longer than expected'']"
  have B: "list_all (\<lambda>e. \<not> writes_store e) B"
    using quiet_no_write [OF pre] quiet_no_write [OF polls] by (simp add: B_def updateToast_def)
  have T: "bridge env p = (Persist ?a None # B) @ Persist ?a (Some ?new) # ?F"
    by (simp add: eq B_def)
  have len: "length (bridge env p) = length B + 4"
    by (simp add: T)
  have late: "loadPendingBurn ?a (storage (run (take k (bridge env p)) w)) = Some ?new"
    if k: "length (bridge env p) \<le> k + 2" for k
  proof -
    from k len have ge: "length B + 2 \<le> k" by simp
    then obtain j where j: "k = length (Persist ?a None # B) + Suc j"
      by (metis add_2_eq_Suc' le_Suc_ex length_Cons add_Suc_right add_Suc)
    have "take k (bridge env p) = (Persist ?a None # B) @ Persist ?a (Some ?new) # take j ?F"
      unfolding T j by (simp del: append_Cons)
    moreover have "list_all (\<lambda>e. \<not> writes_store e) (take j ?F)"
      by (rule list_all_take) simp
    ultimately show ?thesis
      by (simp add: no_write_run load_save_Some)
  qed
  have early: "loadPendingBurn ?a (storage (run (take k (bridge env p)) w)) = None"
    if k: "1 \<le> k \<and> k + 3 \<le> length (bridge env p)" for k
  proof -
    from k obtain j where j: "k = Suc j" by (cases k) auto
    with k len have jB: "j \<le> length B" by simp
    have "take k (bridge env p) = Persist ?a None # take j B"
      unfolding T j using jB by simp
    moreover have "list_all (\<lambda>e. \<not> writes_store e) (take j B)"
      by (rule list_all_take) (rule B)
    ultimately show ?thesis
      by (simp add: no_write_run load_save_None)
  qed
  have "txHash ?new = Some h" by (simp add: newPendingBurn_def)
  with late early show ?thesis by blast
qed

theorem C2_record_written_at_timeout_witness:
  "Ext (BurnReceipt hashA True) \<in> set (bridge env0 params0) \<and>
   (\<forall>i. poll_once env0 hashA i = None) \<and>
   loadPendingBurn addr0 (storage (run (bridge env0 params0) world0)) =
     Some \<lparr>txHash = Some hashA, fromNetwork = ethereumSepolia, toNetwork = arcTestnet,
           amount = ''20'', timestamp = 1700000000000\<rparr> \<and>
   13 \<le> length (bridge env0 params0) \<and>
   loadPendingBurn addr0 (storage (run (take 10 (bridge env0 params0)) world1)) = None"
proof -
  have confirmed: "Ext (BurnReceipt hashA True) \<in> set (bridge env0 params0)"
    by (simp add: bridge_def bridge_try_def bridge_direct_def direct_burn_def params0_def
          opt_string_def Let_def)
  have never: "\<forall>i. poll_once env0 hashA i = None"
    by (simp add: poll_once_def)
  then have never': "\<forall>i. 1 \<le> i \<and> i \<le> MAX_ATTEMPTS \<longrightarrow> poll_once env0 hashA i = None"
    by simp
  have len: "13 \<le> length (bridge env0 params0)"
    by (simp add: bridge_def bridge_try_def bridge_direct_def direct_burn_def direct_after_burn_def
          params0_def opt_string_def Let_def split: prod.splits)
  from C2_record_written_at_timeout [OF confirmed never', of world0]
  have "\<forall>k. length (bridge env0 params0) \<le> k + 2 \<longrightarrow>
          loadPendingBurn addr0 (storage (run (take k (bridge env0 params0)) world0)) =
          Some (newPendingBurn env0 params0 (Some hashA))"
    by (simp add: opt_string_def)
  then have "length (bridge env0 params0) \<le> length (bridge env0 params0) + 2 \<longrightarrow>
          loadPendingBurn addr0
            (storage (run (take (length (bridge env0 params0)) (bridge env0 params0)) world0)) =
          Some (newPendingBurn env0 params0 (Some hashA))"
    by (rule spec)
  then have late: "loadPendingBurn addr0 (storage (run (bridge env0 params0) world0)) =
          Some (newPendingBurn env0 params0 (Some hashA))"
    by simp
  from C2_record_written_at_timeout [OF confirmed never', of world1]
  have "\<forall>k. 1 \<le> k \<and> k + 3 \<le> length (bridge env0 params0) \<longrightarrow>
          loadPendingBurn addr0 (storage (run (take k (bridge env0 params0)) world1)) = None"
    by (simp add: opt_string_def)
  then have "1 \<le> (10::nat) \<and> 10 + 3 \<le> length (bridge env0 params0) \<longrightarrow>
          loadPendingBurn addr0 (storage (run (take 10 (bridge env0 params0)) world1)) = None"
    by (rule spec)
  with len have early:
    "loadPendingBurn addr0 (storage (run (take 10 (bridge env0 params0)) world1)) = None"
    by simp
  from confirmed never late len early show ?thesis
    by (simp add: newPendingBurn_def params0_def)
qed

text \<open>
  C2 as stated fails: with the environment \<open>env0\<close> the burn is confirmed by the ninth
  effect of the call; a run interrupted one effect later has written no record.
\<close>

theorem C2_interrupted_after_confirmation_counterexample:
  "Ext (BurnReceipt hashA True) \<in> set (take 10 (bridge env0 params0)) \<and>
   loadPendingBurn addr0 (storage (run (take 10 (bridge env0 params0)) world0)) = None"
  by (simp add: bridge_def bridge_try_def bridge_direct_def direct_burn_def direct_after_burn_def
        params0_def opt_string_def Let_def world0_def loadPendingBurn_def savePendingBurn_def)




text \<open>
  C4 (idempotent claim): when a claim reaches \<open>receiveMessage\<close> on the destination and
  the contract answers with an error whose message contains "Nonce already used" or
  "already received", the claim ends as a success: the record of the initiator is
  deleted, the status is \<open>complete\<close>, the state carries no error and no pending burn, a
  success toast and no error toast is shown, and the mint is not attempted again: that
  one call of \<open>receiveMessage\<close> is the only one and no mint transaction was submitted.
\<close>

theorem C4_claim_is_idempotent:
  assumes reach: "Ext (MintTx n m x) \<in> set (claimPendingBridge env st)"
      and thrown: "receiveMessage env n m x = Inl e"
      and already: "already_claimed (claim_errorMsg e)"
  shows "loadPendingBurn (opt_string (account_address env))
           (storage (run (claimPendingBridge env st) w)) = None \<and>
         attestationStatus (run (claimPendingBridge env st) w) = Some st_complete \<and>
         error (ui (run (claimPendingBridge env st) w)) = None \<and>
         \<not> isClaiming (ui (run (claimPendingBridge env st) w)) \<and>
         pendingBurn (ui (run (claimPendingBridge env st) w)) = None \<and>
         Toast success ''Transfer already completed!'' \<in> set (claimPendingBridge env st) \<and>
         (\<forall>t. Toast toast_error t \<notin> set (claimPendingBridge env st)) \<and>
         (\<forall>h. Ext (MintSubmitted h) \<notin> set (claimPendingBridge env st)) \<and>
         length (filter is_mint_call (claimPendingBridge env st)) = 1"
proof -
  let ?a = "opt_string (account_address env)"
  from reach have "truthy (account_address env)"
    by (auto simp: claimPendingBridge_def split: option.splits if_splits)
  then have a: "?a \<noteq> []"
    by (cases "account_address env") (simp_all add: opt_string_def)
  from claim_reaches_mint [OF reach thrown] obtain effs where
    q: "list_all quiet effs" and
    eq: "claimPendingBridge env st =
           SetState (\<lambda>prev. prev\<lparr>isClaiming := True, error := None\<rparr>) # effs @
           Ext (MintTx n m x) # claim_catch ?a e"
    by blast
  have caught: "claim_catch ?a e =
      [Persist ?a None,
       SetState (\<lambda>prev. prev\<lparr>isClaiming := False, pendingBurn := None, error := None\<rparr>),
       SetAttestationStatus (Some st_complete),
       Toast success ''Transfer already completed!'']"
    using already a by (simp add: claim_catch_def)
  have store: "loadPendingBurn ?a (storage (run (claimPendingBridge env st) w)) = None"
    by (simp add: eq caught load_save_None)
  have status: "attestationStatus (run (claimPendingBridge env st) w) = Some st_complete"
    by (simp add: eq caught)
  have state: "error (ui (run (claimPendingBridge env st) w)) = None \<and>
               \<not> isClaiming (ui (run (claimPendingBridge env st) w)) \<and>
               pendingBurn (ui (run (claimPendingBridge env st) w)) = None"
    by (simp add: eq caught)
  have shown: "Toast success ''Transfer already completed!'' \<in> set (claimPendingBridge env st)"
    by (simp add: eq caught)
  have no_error: "\<forall>t. Toast toast_error t \<notin> set (claimPendingBridge env st)"
    using quiet_no_error_toast [OF q] by (simp add: eq caught)
  have no_tx: "\<forall>h. Ext (MintSubmitted h) \<notin> set (claimPendingBridge env st)"
    using quiet_no_submitted [OF q] by (simp add: eq caught)
  have once: "length (filter is_mint_call (claimPendingBridge env st)) = 1"
    using quiet_not_mint_call [OF q] by (simp add: eq caught)
  from store status state shown no_error no_tx once show ?thesis by blast
qed

theorem C4_claim_is_idempotent_witness:
  "Ext (MintTx arcTestnet ''0x0000'' ''0xa77e57'') \<in> set (claimPendingBridge env_already claiming_state) \<and>
   receiveMessage env_already arcTestnet ''0x0000'' ''0xa77e57'' =
     Inl (Error ''execution reverted: Nonce already used'') \<and>
   already_claimed (claim_errorMsg (Error ''execution reverted: Nonce already used'')) \<and>
   loadPendingBurn addr0 (storage (run (claimPendingBridge env_already claiming_state) world1)) = None \<and>
   attestationStatus (run (claimPendingBridge env_already claiming_state) world1) = Some st_complete \<and>
   error (ui (run (claimPendingBridge env_already claiming_state) world1)) = None"
proof -
  have reach: "Ext (MintTx arcTestnet ''0x0000'' ''0xa77e57'') \<in>
                 set (claimPendingBridge env_already claiming_state)"
    by (simp add: claimPendingBridge_def claim_try_def claim_domains_def claim_switch_def
          claim_submit_def claiming_state_def idle_state_def recA_def env_already_def
          env_attested_def msg0_def url_hash_def opt_string_def Let_def)
  have thrown: "receiveMessage env_already arcTestnet ''0x0000'' ''0xa77e57'' =
                  Inl (Error ''execution reverted: Nonce already used'')"
    by (simp add: env_already_def)
  have already: "already_claimed (claim_errorMsg (Error ''execution reverted: Nonce already used''))"
    by (simp add: already_claimed_def claim_errorMsg_def Error_def opt_string_def)
  from C4_claim_is_idempotent [OF reach thrown already, of world1] reach thrown already
  show ?thesis
    by (simp add: env_already_def env_attested_def opt_string_def)
qed




text \<open>
  C6 (precondition on starting a transfer), as the code has it: a call of \<open>bridge\<close> that
  passes the three guards (wallet connected, amount accepted, supported direction) is
  never rejected on account of a stored record. Its first effect deletes the record of
  the initiator, it then enters the bridging state, and after the call the store holds
  for the initiator either nothing or a record built by this very call.
\<close>

theorem C6_transfer_replaces_existing_record:
  assumes acc: "bridge_accepts env p"
  shows "take 3 (bridge env p) =
           [Persist (opt_string (account_address env)) None, SetState (\<lambda>prev. bridging_state),
            SetAttestationStatus None] \<and>
         (loadPendingBurn (opt_string (account_address env)) (storage (run (bridge env p) w)) = None \<or>
          (\<exists>h. loadPendingBurn (opt_string (account_address env)) (storage (run (bridge env p) w)) =
                Some (newPendingBurn env p h)))"
proof -
  let ?a = "opt_string (account_address env)"
  from bridge_starts [OF acc] obtain rest where
    eq: "bridge env p = Persist ?a None # SetState (\<lambda>prev. bridging_state) #
                        SetAttestationStatus None # rest"
    by blast
  then have first: "take 3 (bridge env p) =
      [Persist ?a None, SetState (\<lambda>prev. bridging_state), SetAttestationStatus None]"
    by simp
  from bridge_own [of env p] eq have rest: "list_all (own_write env p ?a) rest"
    by simp
  have cleared: "loadPendingBurn ?a (storage (run [Persist ?a None, SetState (\<lambda>prev. bridging_state),
      SetAttestationStatus None] w)) = None"
    by (simp add: load_save_None)
  have "run (bridge env p) w =
        run rest (run [Persist ?a None, SetState (\<lambda>prev. bridging_state), SetAttestationStatus None] w)"
    by (simp add: eq)
  with own_writes_result [OF rest disjI1 [OF cleared]] first show ?thesis
    by simp
qed

theorem C6_transfer_replaces_existing_record_witness:
  "bridge_accepts (env0\<lparr>sendBurn := \<lambda>a f. Inl (Error ''User rejected the request.'')\<rparr>) params0 \<and>
   loadPendingBurn addr0 (storage world1) = Some recA \<and>
   take 3 (bridge (env0\<lparr>sendBurn := \<lambda>a f. Inl (Error ''User rejected the request.'')\<rparr>) params0) =
     [Persist addr0 None, SetState (\<lambda>prev. bridging_state), SetAttestationStatus None]"
proof -
  have acc: "bridge_accepts (env0\<lparr>sendBurn := \<lambda>a f. Inl (Error ''User rejected the request.'')\<rparr>) params0"
    by (simp add: bridge_accepts_def params0_def)
  have "loadPendingBurn addr0 (storage world1) = Some recA"
    by (simp add: world1_def loadPendingBurn_def)
  with acc C6_transfer_replaces_existing_record [OF acc, of world1] show ?thesis
    by (simp add: opt_string_def)
qed

text \<open>
  C6 as stated fails: the store holds the record \<open>recA\<close> of \<open>addr0\<close>; a second transfer
  from \<open>addr0\<close> is not rejected, it goes on to ask the wallet for the burn transaction
  (which the user declines here), and afterwards the earlier record is gone.
\<close>

theorem C6_second_transfer_counterexample:
  "loadPendingBurn addr0 (storage world1) = Some recA \<and>
   Ext (BurnTx 20000000 2000) \<in>
     set (bridge (env0\<lparr>sendBurn := \<lambda>a f. Inl (Error ''User rejected the request.'')\<rparr>) params0) \<and>
   loadPendingBurn addr0
     (storage (run (bridge (env0\<lparr>sendBurn := \<lambda>a f. Inl (Error ''User rejected the request.'')\<rparr>)
                      params0) world1)) = None"
  by (simp add: bridge_def bridge_try_def bridge_direct_def direct_burn_def bridge_catch_def
        params0_def world1_def refs0_def Error_def outer_errorMsg_def isNetworkError_def
        maxFee_def bigint_div_def feeBps_def MIN_FEE_def opt_string_def
        savePendingBurn_def loadPendingBurn_def delete_key_def Let_def)

text \<open>
  C7 (reconciliation never double-trusts attestation), as the code has it: for a stored
  record whose first attestation message carries a usable attestation, the wallet-connect
  effect schedules the automatic claim exactly when the wallet is on Arc Testnet,
  whatever the destination of the record, and otherwise shows the "unclaimed USDC"
  toast. In both cases the status becomes \<open>pending_mint\<close>, \<open>mintConfirmed\<close> is left as it
  was, and the record stays in the store and in the state with its hash and direction.
\<close>

theorem C7_reconciler_with_proof:
  assumes addr: "truthy (account_address env)"
      and stored: "loadPendingBurn (opt_string (account_address env)) ls = Some r"
      and resp: "fetchAttestation env (domain_of env (fromNetwork r)) (url_hash (txHash r)) 0 =
                 Response ok (Json msgs)"
      and msg: "first_message msgs = Some m"
      and usable: "usable (msg_attestation m)"
  shows "(Ext AutoClaim \<in> set (onWalletConnect env ls) \<longleftrightarrow>
            account_chainId env = Some (chainId_of env arcTestnet)) \<and>
         (account_chainId env \<noteq> Some (chainId_of env arcTestnet) \<longrightarrow>
            Toast info ''You have unclaimed USDC!'' \<in> set (onWalletConnect env ls)) \<and>
         attestationStatus (run (onWalletConnect env ls) w) = Some st_pending_mint \<and>
         mintConfirmed (ui (run (onWalletConnect env ls) w)) = mintConfirmed (ui w) \<and>
         (\<exists>r'. loadPendingBurn (opt_string (account_address env))
                 (storage (run (onWalletConnect env ls) w)) = Some r' \<and>
               pendingBurn (ui (run (onWalletConnect env ls) w)) = Some r' \<and>
               txHash r' = txHash r \<and> fromNetwork r' = fromNetwork r \<and>
               toNetwork r' = toNetwork r)"
proof -
  from usable have att: "truthy (msg_attestation m)" "msg_attestation m \<noteq> Some ''PENDING''"
    by (simp_all add: usable_def)
  show ?thesis
    using addr stored resp msg att
    by (simp add: onWalletConnect_def verifyAndLoad_def Let_def load_save_Some)
qed

theorem C7_reconciler_with_proof_witness:
  "truthy (account_address (env_attested\<lparr>account_chainId := Some 5042002\<rparr>)) \<and>
   loadPendingBurn addr0 (Some [(addr0, recA)]) = Some recA \<and>
   first_message (Some [msg0]) = Some msg0 \<and>
   usable (msg_attestation msg0) \<and>
   Ext AutoClaim \<in> set (onWalletConnect (env_attested\<lparr>account_chainId := Some 5042002\<rparr>)
                          (Some [(addr0, recA)])) \<and>
   attestationStatus (run (onWalletConnect (env_attested\<lparr>account_chainId := Some 5042002\<rparr>)
                             (Some [(addr0, recA)])) world1) = Some st_pending_mint"
proof -
  let ?env = "env_attested\<lparr>account_chainId := Some 5042002\<rparr>"
  have addr: "truthy (account_address ?env)"
    by (simp add: env_attested_def)
  have stored: "loadPendingBurn (opt_string (account_address ?env)) (Some [(addr0, recA)]) = Some recA"
    by (simp add: env_attested_def opt_string_def loadPendingBurn_def)
  have resp: "fetchAttestation ?env (domain_of ?env (fromNetwork recA)) (url_hash (txHash recA)) 0 =
              Response True (Json (Some [msg0]))"
    by (simp add: env_attested_def)
  have msg: "first_message (Some [msg0]) = Some msg0" by simp
  have usable: "usable (msg_attestation msg0)" by (simp add: msg0_def usable_def)
  from C7_reconciler_with_proof [OF addr stored resp msg usable, of world1] addr stored msg usable
  show ?thesis
    by (simp add: env_attested_def opt_string_def)
qed

text \<open>
  C7 as stated fails: the stored record \<open>recB\<close> goes from Arc to Sepolia, its attestation
  is usable and the wallet is on Sepolia, the destination network; no automatic claim is
  scheduled.
\<close>

theorem C7_wallet_on_destination_counterexample:
  "loadPendingBurn addr0 (Some [(addr0, recB)]) = Some recB \<and>
   account_chainId env_attested = Some (chainId_of env_attested (toNetwork recB)) \<and>
   usable (msg_attestation msg0) \<and>
   Ext AutoClaim \<notin> set (onWalletConnect env_attested (Some [(addr0, recB)]))"
  by (simp add: onWalletConnect_def verifyAndLoad_def Let_def env_attested_def opt_string_def
        loadPendingBurn_def recB_def msg0_def usable_def url_hash_def)

text \<open>
  C8 (restore input validation): for every input string that does not have the shape
  of a transaction hash (prefix \<open>0x\<close> and exactly 66 characters), \<open>restorePendingBurn\<close>
  returns a failure result without any effect: no request to the attestation service,
  no record written, no state changed.
\<close>

theorem C8_restore_rejects_bad_shape:
  "\<not> (startsWith burnTxHash ''0x'' \<and> length burnTxHash = 66) \<Longrightarrow>
   fst (restorePendingBurn env burnTxHash) = [] \<and>
   \<not> res_success (snd (restorePendingBurn env burnTxHash)) \<and>
   run (fst (restorePendingBurn env burnTxHash)) w = w"
  by (auto simp: restorePendingBurn_def)

theorem C8_restore_rejects_bad_shape_witness:
  "\<not> (startsWith ''0x1234'' ''0x'' \<and> length ''0x1234'' = 66) \<and>
   fst (restorePendingBurn env0 ''0x1234'') = [] \<and>
   \<not> res_success (snd (restorePendingBurn env0 ''0x1234'')) \<and>
   run (fst (restorePendingBurn env0 ''0x1234'')) world0 = world0"
  using C8_restore_rejects_bad_shape [of "''0x1234''" env0 world0] by simp

text \<open>
  C9 (per-address record independence), evaluated where the code departs from it:
  the store holds the record of \<open>addrB\<close>; writing a record for the different address
  \<open>addr0\<close> with \<open>savePendingBurn\<close> replaces the whole stored object, and the record of
  \<open>addrB\<close> is gone.
\<close>

theorem C9_save_drops_other_address:
  "loadPendingBurn addrB (Some [(addrB, recB)]) = Some recB \<and>
   loadPendingBurn addrB (savePendingBurn addr0 (Some recA) (Some [(addrB, recB)])) = None"
  by (simp add: loadPendingBurn_def savePendingBurn_def)

text \<open>
  C10 (relayer fee): in the direct Sepolia-to-Arc path the \<open>maxFee\<close> passed with the
  burn call is, for every positive amount, the larger of one basis point of the amount
  (\<open>amountWei * 1 / 10000\<close>, integer division) and the floor of 1000 base units; the
  burn call is the second effect of the burn step and carries that fee.
\<close>

theorem C10_maxFee_formula:
  assumes "0 < amountWei"
  shows "maxFee amountWei = max (amountWei * 1 div 10000) 1000 \<and>
         (\<exists>rest. direct_burn env p a amountWei =
            Toast info ''Bridging to Arc...'' #
            Ext (BurnTx amountWei (max (amountWei * 1 div 10000) 1000)) # rest)"
proof -
  from assms have fee: "maxFee amountWei = max (amountWei * 1 div 10000) 1000"
    by (simp add: maxFee_def bigint_div_def feeBps_def MIN_FEE_def max_def)
  have "\<exists>rest. direct_burn env p a amountWei =
            Toast info ''Bridging to Arc...'' # Ext (BurnTx amountWei (maxFee amountWei)) # rest"
    by (simp add: direct_burn_def)
  with fee show ?thesis by simp
qed

theorem C10_maxFee_formula_witness:
  "(0::int) < 20000000 \<and> maxFee 20000000 = 2000 \<and> maxFee 5000000 = 1000 \<and>
   take 2 (direct_burn env0 params0 addr0 20000000) =
     [Toast info ''Bridging to Arc...'', Ext (BurnTx 20000000 2000)]"
proof -
  have pos: "(0::int) < 20000000" by simp
  have low: "maxFee 5000000 = 1000"
    by (simp add: maxFee_def bigint_div_def feeBps_def MIN_FEE_def)
  from C10_maxFee_formula [OF pos, of env0 params0 addr0] obtain rest where
    fee: "maxFee 20000000 = 2000" and
    eq: "direct_burn env0 params0 addr0 20000000 =
           Toast info ''Bridging to Arc...'' # Ext (BurnTx 20000000 2000) # rest"
    by auto
  from eq have "take 2 (direct_burn env0 params0 addr0 20000000) =
     [Toast info ''Bridging to Arc...'', Ext (BurnTx 20000000 2000)]"
    by simp
  with pos fee low show ?thesis by simp
qed

end
